theory Spec2Isabelle
  imports Complex_Main "HOL-Library.Option_ord"
begin

section \<open>Data model\<close>

text \<open>
  The notebooks keep their data in pandas frames read from and written to one SQLite
  file.  A frame is a list of labelled rows: the label is the pandas index, which
  \<open>read_sql\<close> sets to the position of the row in the query result and which every
  later step (\<open>dropna\<close>, column assignment) carries along unchanged.

  A value of a float column is a double: \<open>Fin x\<close> for a finite one, the two
  infinities, or \<open>NaN\<close>, which is also how pandas holds a missing value.  The result of
  an operation on finite doubles is taken exactly unless it leaves the range of a
  double, where it is the infinity that IEEE arithmetic gives; rounding inside the
  range and the sign of zero are not modelled.  A cell of the SQLite column
  \<open>Adj Close\<close> is a finite number, an infinity, a text or \<open>NULL\<close>.  A missing value of
  the other raw columns is \<open>None\<close>.  A date is the number of its day.
\<close>

datatype cell = Num real | PosInf | NegInf | Txt string | Null

datatype fl = Fin real | PInf | NInf | NaN

record 'a stock_row =
  Date :: "nat option"
  Adj_Close :: 'a
  Close :: "real option"
  High :: "real option"
  Low :: "real option"
  Open :: "real option"
  Volume :: "int option"
  Company :: "string option"
  Ticker :: "string option"

record 'a feature_row = "'a stock_row" +
  MA_7day :: fl
  MA_14day :: fl
  Daily_Return :: fl
  Volatility :: fl
  Lag_1 :: fl
  Lag_2 :: fl

type_synonym 'r frame = "(nat \<times> 'r) list"

type_synonym raw_row = "cell stock_row"
type_synonym num_row = "fl stock_row"
type_synonym processed_row = "fl feature_row"

subsection \<open>Double arithmetic\<close>

text \<open>
  An exact result of magnitude \<open>2^1024 - 2^970\<close> or more rounds to an infinity.  A
  division by zero gives an infinity, or \<open>NaN\<close> for \<open>0 / 0\<close>; the zero is taken as
  positive (after a negative zero the code has the infinity of the other sign).
\<close>

definition overflow_threshold :: real where
  "overflow_threshold = 2 ^ 1024 - 2 ^ 970"

definition fl_round :: "real \<Rightarrow> fl" where
  "fl_round x =
     (if overflow_threshold \<le> x then PInf
      else if x \<le> - overflow_threshold then NInf
      else Fin x)"

fun fl_div :: "fl \<Rightarrow> fl \<Rightarrow> fl" where
  "fl_div (Fin a) (Fin b) =
     (if b \<noteq> 0 then fl_round (a / b)
      else if 0 < a then PInf else if a < 0 then NInf else NaN)"
| "fl_div (Fin a) PInf = Fin 0"
| "fl_div (Fin a) NInf = Fin 0"
| "fl_div PInf (Fin b) = (if b < 0 then NInf else PInf)"
| "fl_div NInf (Fin b) = (if b < 0 then PInf else NInf)"
| "fl_div _ _ = NaN"

text \<open>Subtracting one from a finite double never leaves the range.\<close>

fun fl_minus_one :: "fl \<Rightarrow> fl" where
  "fl_minus_one (Fin q) = Fin (q - 1)"
| "fl_minus_one v = v"

subsection \<open>What the model takes from pandas as given\<close>

text \<open>
  Three things are parameters of the model: which number, infinity or \<open>NaN\<close> the parser
  of \<open>pd.to_numeric\<close> reads from a text (\<open>NaN\<close> when it reads none), and what the
  rolling mean and the rolling standard deviation return once their running sums may
  have left the range of a double (see \<open>in_range\<close> below).
\<close>

record pandas =
  parse_number :: "string \<Rightarrow> fl"
  mean_out_of_range :: "nat \<Rightarrow> fl list \<Rightarrow> nat \<Rightarrow> fl"
  std_out_of_range :: "nat \<Rightarrow> fl list \<Rightarrow> nat \<Rightarrow> fl"

section \<open>Notebook 2: loading and cleaning\<close>

text \<open>
  \<^verbatim>\<open>raw_data = pd.read_sql("SELECT * FROM stocks", conn)\<close>: the rows of the table in
  their stored order (the query has no \<open>ORDER BY\<close>), labelled \<open>0, 1, 2, ...\<close>.
\<close>

definition read_sql :: "'r list \<Rightarrow> 'r frame" where
  "read_sql rows = zip [0..<length rows] rows"

text \<open>
  \<^verbatim>\<open>pd.to_numeric(raw_data['Adj Close'], errors='coerce')\<close>: a number or an infinity
  stays, a text becomes what the parser reads from it, which is \<open>NaN\<close> when it reads no
  number, and \<open>NULL\<close> becomes \<open>NaN\<close>.
\<close>

definition to_numeric :: "pandas \<Rightarrow> cell \<Rightarrow> fl" where
  "to_numeric lib c =
     (case c of
        Num x \<Rightarrow> Fin x
      | PosInf \<Rightarrow> PInf
      | NegInf \<Rightarrow> NInf
      | Txt s \<Rightarrow> parse_number lib s
      | Null \<Rightarrow> NaN)"

definition coerce_row :: "pandas \<Rightarrow> raw_row \<Rightarrow> num_row" where
  "coerce_row lib r =
     \<lparr>Date = Date r, Adj_Close = to_numeric lib (Adj_Close r), Close = Close r,
      High = High r, Low = Low r, Open = Open r, Volume = Volume r,
      Company = Company r, Ticker = Ticker r\<rparr>"

text \<open>
  \<^verbatim>\<open>raw_data.dropna(subset=['Adj Close'])\<close>: a row goes when its adjusted close is
  \<open>NaN\<close>; an infinity is not missing.
\<close>

definition dropna_adj_close :: "num_row frame \<Rightarrow> num_row frame" where
  "dropna_adj_close df = filter (\<lambda>(i, r). Adj_Close r \<noteq> NaN) df"

definition clean :: "pandas \<Rightarrow> raw_row frame \<Rightarrow> num_row frame" where
  "clean lib df = dropna_adj_close (map (\<lambda>(i, r). (i, coerce_row lib r)) df)"

section \<open>Notebook 2: feature engineering\<close>

subsection \<open>Series operations of pandas\<close>

text \<open>
  \<open>x.rolling(window=w)\<close>: the window of row \<open>i\<close> holds the rows \<open>i-w+1 .. i\<close> (fewer at
  the start of the series).  The rolling functions turn an infinity into \<open>NaN\<close> before
  they aggregate and skip every \<open>NaN\<close>, so the observations of a window are its finite
  values.  \<open>min_periods\<close> defaults to \<open>w\<close>: the result is \<open>NaN\<close> unless the window holds
  \<open>w\<close> observations.
\<close>

definition window :: "nat \<Rightarrow> 'a list \<Rightarrow> nat \<Rightarrow> 'a list" where
  "window w xs i = drop (Suc i - w) (take (Suc i) xs)"

definition observed :: "fl list \<Rightarrow> real list" where
  "observed win = concat (map (\<lambda>v. case v of Fin x \<Rightarrow> [x] | _ \<Rightarrow> []) win)"

definition mean :: "real list \<Rightarrow> real" where
  "mean xs = sum_list xs / real (length xs)"

text \<open>\<open>std()\<close> has \<open>ddof=1\<close>: the sample standard deviation.\<close>

definition sample_std :: "real list \<Rightarrow> real" where
  "sample_std xs = sqrt (sum_list (map (\<lambda>x. (x - mean xs)\<^sup>2) xs) / (real (length xs) - 1))"

text \<open>
  pandas does not add up each window afresh: it carries running sums (of the values,
  of the squared deviations) from row to row of the series, adding the value that
  enters the window and taking away the one that leaves.  While the window has at most
  1000 rows and every observation of the series up to row \<open>i\<close> is at most \<open>2^500\<close> in
  magnitude, no running sum can leave the range of a double, and the result at row \<open>i\<close>
  is the mean, or the deviation, of the observations of the window, up to the rounding
  errors of the running sums, which the model does not track.  Otherwise a sum may have
  overflowed at this row or an earlier one, and the result is what pandas makes of
  that: a parameter.
\<close>

definition moderate :: "real \<Rightarrow> bool" where
  "moderate x \<longleftrightarrow> \<bar>x\<bar> \<le> 2 ^ 500"

definition in_range :: "nat \<Rightarrow> fl list \<Rightarrow> nat \<Rightarrow> bool" where
  "in_range w xs i \<longleftrightarrow> w \<le> 1000 \<and> list_all moderate (observed (take (Suc i) xs))"

definition rolling_mean :: "pandas \<Rightarrow> nat \<Rightarrow> fl list \<Rightarrow> fl list" where
  "rolling_mean lib w xs =
     map (\<lambda>i. let obs = observed (window w xs i)
               in if length obs < w \<or> length obs = 0 then NaN
                  else if in_range w xs i then Fin (mean obs)
                  else mean_out_of_range lib w xs i) [0..<length xs]"

definition rolling_std :: "pandas \<Rightarrow> nat \<Rightarrow> fl list \<Rightarrow> fl list" where
  "rolling_std lib w xs =
     map (\<lambda>i. let obs = observed (window w xs i)
               in if length obs < w \<or> length obs \<le> 1 then NaN
                  else if in_range w xs i then Fin (sample_std obs)
                  else std_out_of_range lib w xs i) [0..<length xs]"

text \<open>\<open>shift(n)\<close>: the value \<open>n\<close> rows earlier, \<open>NaN\<close> on the first \<open>n\<close> rows.\<close>

definition shift :: "nat \<Rightarrow> fl list \<Rightarrow> fl list" where
  "shift n xs = take (length xs) (replicate n NaN @ xs)"

text \<open>
  \<open>pct_change()\<close>: missing values are filled forward, then
  \<open>filled / filled.shift(1) - 1\<close> in double arithmetic.
\<close>

fun ffill_from :: "fl \<Rightarrow> fl list \<Rightarrow> fl list" where
  "ffill_from prev [] = []"
| "ffill_from prev (NaN # xs) = prev # ffill_from prev xs"
| "ffill_from prev (x # xs) = x # ffill_from x xs"

definition ffill :: "fl list \<Rightarrow> fl list" where
  "ffill xs = ffill_from NaN xs"

definition pct :: "fl \<Rightarrow> fl \<Rightarrow> fl" where
  "pct cur prev = fl_minus_one (fl_div cur prev)"

definition pct_change :: "fl list \<Rightarrow> fl list" where
  "pct_change xs = (let filled = ffill xs in map2 pct filled (shift 1 filled))"

subsection \<open>Group-wise application\<close>

text \<open>
  \<open>groupby('Ticker')[col]\<close> splits the column by ticker, each group in row order; a
  row whose ticker is missing belongs to no group.  The function is applied to every
  group and the results go back to the rows they came from; a row without a group
  gets \<open>NaN\<close>.
\<close>

definition group_of :: "'k \<Rightarrow> 'k option list \<Rightarrow> 'a list \<Rightarrow> 'a list" where
  "group_of k keys col = map snd (filter (\<lambda>(k', v). k' = Some k) (zip keys col))"

fun scatter :: "'o \<Rightarrow> ('k \<Rightarrow> 'o list) \<Rightarrow> 'k option list \<Rightarrow> 'o list" where
  "scatter nan res [] = []"
| "scatter nan res (None # ks) = nan # scatter nan res ks"
| "scatter nan res (Some k # ks) =
     (case res k of
        [] \<Rightarrow> nan # scatter nan res ks
      | v # vs \<Rightarrow> v # scatter nan (res(k := vs)) ks)"

definition groupby_apply ::
  "'o \<Rightarrow> 'k option list \<Rightarrow> 'a list \<Rightarrow> ('a list \<Rightarrow> 'o list) \<Rightarrow> 'o list" where
  "groupby_apply nan keys col f = scatter nan (\<lambda>k. f (group_of k keys col)) keys"

subsection \<open>The feature cell\<close>

text \<open>
  \<^verbatim>\<open>
  raw_data['7-day MA'] = raw_data.groupby('Ticker')['Adj Close'].transform(lambda x: x.rolling(window=7).mean())
  raw_data['14-day MA'] = raw_data.groupby('Ticker')['Adj Close'].transform(lambda x: x.rolling(window=14).mean())
  raw_data['Daily Return'] = raw_data.groupby('Ticker')['Adj Close'].pct_change()
  raw_data['Volatility'] = raw_data.groupby('Ticker')['Daily Return'].transform(lambda x: x.rolling(window=7).std())
  raw_data['Lag_1'] = raw_data.groupby('Ticker')['Adj Close'].shift(1)
  raw_data['Lag_2'] = raw_data.groupby('Ticker')['Adj Close'].shift(2)
  processed_data = raw_data.dropna()
  \<close>
\<close>

definition with_features :: "num_row \<Rightarrow> fl \<times> fl \<times> fl \<times> fl \<times> fl \<times> fl \<Rightarrow> processed_row" where
  "with_features r d =
     (case d of (ma7, ma14, ret, vol, lag1, lag2) \<Rightarrow>
        stock_row.extend r (feature_row.fields ma7 ma14 ret vol lag1 lag2))"

definition derived_columns ::
  "pandas \<Rightarrow> string option list \<Rightarrow> fl list \<Rightarrow> (fl \<times> fl \<times> fl \<times> fl \<times> fl \<times> fl) list" where
  "derived_columns lib keys adj =
     (let ma7 = groupby_apply NaN keys adj (rolling_mean lib 7);
          ma14 = groupby_apply NaN keys adj (rolling_mean lib 14);
          ret = groupby_apply NaN keys adj pct_change;
          vol = groupby_apply NaN keys ret (rolling_std lib 7);
          lag1 = groupby_apply NaN keys adj (shift 1);
          lag2 = groupby_apply NaN keys adj (shift 2)
      in zip ma7 (zip ma14 (zip ret (zip vol (zip lag1 lag2)))))"

definition add_features :: "pandas \<Rightarrow> num_row frame \<Rightarrow> processed_row frame" where
  "add_features lib df =
     map (\<lambda>((i, r), d). (i, with_features r d))
       (zip df (derived_columns lib (map (\<lambda>(i, r). Ticker r) df) (map (\<lambda>(i, r). Adj_Close r) df)))"

text \<open>\<open>dropna()\<close> keeps a row when no column of it is \<open>NaN\<close>; an infinity is kept.\<close>

definition complete_raw :: "(fl, 'z) stock_row_scheme \<Rightarrow> bool" where
  "complete_raw r \<longleftrightarrow>
     Date r \<noteq> None \<and> Adj_Close r \<noteq> NaN \<and> Close r \<noteq> None \<and> High r \<noteq> None \<and>
     Low r \<noteq> None \<and> Open r \<noteq> None \<and> Volume r \<noteq> None \<and> Company r \<noteq> None \<and>
     Ticker r \<noteq> None"

definition complete_derived :: "processed_row \<Rightarrow> bool" where
  "complete_derived r \<longleftrightarrow>
     MA_7day r \<noteq> NaN \<and> MA_14day r \<noteq> NaN \<and> Daily_Return r \<noteq> NaN \<and>
     Volatility r \<noteq> NaN \<and> Lag_1 r \<noteq> NaN \<and> Lag_2 r \<noteq> NaN"

definition dropna :: "processed_row frame \<Rightarrow> processed_row frame" where
  "dropna df = filter (\<lambda>(i, r). complete_raw r \<and> complete_derived r) df"

definition feature_frame :: "pandas \<Rightarrow> raw_row list \<Rightarrow> processed_row frame" where
  "feature_frame lib rows = add_features lib (clean lib (read_sql rows))"

definition processed_data :: "pandas \<Rightarrow> raw_row list \<Rightarrow> processed_row frame" where
  "processed_data lib rows = dropna (feature_frame lib rows)"

section \<open>Notebook 2: storing the processed table\<close>

text \<open>
  The SQLite file holds the raw table \<open>stocks\<close> and, once the preprocessing notebook has
  run, the table \<open>processed_stocks\<close>.
  \<^verbatim>\<open>processed_data.to_sql('processed_stocks', conn, if_exists='replace', index=False)\<close>
  drops the table if it exists and writes the rows of the frame without their labels.
\<close>

record database =
  stocks :: "raw_row list"
  processed_stocks :: "processed_row list option"

definition to_sql_replace :: "processed_row frame \<Rightarrow> database \<Rightarrow> database" where
  "to_sql_replace df db = db\<lparr>processed_stocks := Some (map snd df)\<rparr>"

definition preprocessing_notebook :: "pandas \<Rightarrow> database \<Rightarrow> database" where
  "preprocessing_notebook lib db = to_sql_replace (processed_data lib (stocks db)) db"

section \<open>Notebook 1: fetching\<close>

text \<open>
  \<^verbatim>\<open>
  def fetch_and_store_data(ticker, company_name, db_path):
      try:
          stock_data = yf.download(ticker, start='2000-01-01', end='2024-12-31', progress=True)
          stock_data.columns = [col[0] if isinstance(col, tuple) else col for col in stock_data.columns]
          stock_data['Company'] = company_name
          stock_data['Ticker'] = ticker
          stock_data.reset_index(inplace=True)
          with sqlite3.connect(db_path) as conn:
              stock_data.to_sql('stocks', conn, if_exists='append', index=False)
          print(f"Data for {company_name} ({ticker}) saved to SQLite database.")
      except Exception as e:
          print(f"An error occurred while fetching data for {ticker}: {e}")

  for stock in stocks:
      fetch_and_store_data(stock['ticker'], stock['company'], db_path)
  \<close>
  The outside world is a parameter: what the download gives for a ticker (rows, or an
  exception with its message) and whether the write of that ticker's rows raises.  A
  write that raises leaves the table as it was (the connection's \<open>with\<close> block rolls
  back).  Only exceptions of the class \<open>Exception\<close> are modelled; an interrupt of the
  interpreter is not.  What the notebook prints is kept as a list of lines.
\<close>

datatype exn = Exception string

record environment =
  download :: "string \<Rightarrow> exn + raw_row list"
  write_error :: "string \<Rightarrow> exn option"

record world =
  db :: database
  printed :: "string list"

definition tag_row :: "string \<Rightarrow> string \<Rightarrow> raw_row \<Rightarrow> raw_row" where
  "tag_row company_name ticker r = r\<lparr>Company := Some company_name, Ticker := Some ticker\<rparr>"

definition to_sql_append :: "environment \<Rightarrow> string \<Rightarrow> raw_row list \<Rightarrow> database \<Rightarrow> exn + database" where
  "to_sql_append env ticker rows d =
     (case write_error env ticker of
        Some e \<Rightarrow> Inl e
      | None \<Rightarrow> Inr (d\<lparr>stocks := stocks d @ rows\<rparr>))"

definition try_body :: "environment \<Rightarrow> string \<Rightarrow> string \<Rightarrow> database \<Rightarrow> exn + database" where
  "try_body env ticker company_name d =
     (case download env ticker of
        Inl e \<Rightarrow> Inl e
      | Inr stock_data \<Rightarrow> to_sql_append env ticker (map (tag_row company_name ticker) stock_data) d)"

definition fetch_and_store_data :: "environment \<Rightarrow> string \<Rightarrow> string \<Rightarrow> world \<Rightarrow> world" where
  "fetch_and_store_data env ticker company_name w =
     (case try_body env ticker company_name (db w) of
        Inr d \<Rightarrow>
          \<lparr>db = d,
           printed = printed w @
             [''Data for '' @ company_name @ '' ('' @ ticker @ '') saved to SQLite database.'']\<rparr>
      | Inl (Exception e) \<Rightarrow>
          w\<lparr>printed := printed w @
             [''An error occurred while fetching data for '' @ ticker @ '': '' @ e]\<rparr>)"

fun fetch_all :: "environment \<Rightarrow> (string \<times> string) list \<Rightarrow> world \<Rightarrow> world" where
  "fetch_all env [] w = w"
| "fetch_all env ((ticker, company) # rest) w =
     fetch_all env rest (fetch_and_store_data env ticker company w)"

section \<open>Notebooks 3 and 4: splitting and scaling in the trainers\<close>

text \<open>
  Both trainers take the feature matrix \<open>X\<close> of one ticker (a list of samples, each
  the list of its five features).

  \<open>train_test_split(X, y, test_size=0.2, random_state=42)\<close> shuffles the row numbers
  with the seeded generator, takes the first \<open>n_test = ceil(0.2 n)\<close> of them as the
  test partition and the next \<open>n_train = n - n_test\<close> as the training partition, and
  raises when the training partition would be empty.  The shuffle of the seed, for
  every length, is a parameter.
\<close>

datatype sk_error = ValueError

definition train_test_split ::
  "(nat \<Rightarrow> nat list) \<Rightarrow> 'a list \<Rightarrow> sk_error + ('a list \<times> 'a list)" where
  "train_test_split permutation X =
     (let n = length X;
          n_test = nat \<lceil>real n / 5\<rceil>;
          n_train = n - n_test
      in if n = 0 \<or> n_train = 0 then Inl ValueError
         else Inr (map ((!) X) (take n_train (drop n_test (permutation n))),
                   map ((!) X) (take n_test (permutation n))))"

text \<open>
  \<open>MinMaxScaler()\<close> with the range \<open>[0, 1]\<close>: \<open>fit\<close> keeps the minimum and the maximum
  of every feature, \<open>scale_ = 1 / (max - min)\<close> (a range below ten machine epsilons,
  \<open>10 * 2^-52\<close>, counts as one) and \<open>min_ = 0 - min * scale_\<close>; \<open>transform\<close> is
  \<open>X * scale_ + min_\<close>.
\<close>

record min_max_scaler =
  data_min :: "real list"
  data_max :: "real list"

definition minmax_fit :: "real list list \<Rightarrow> sk_error + min_max_scaler" where
  "minmax_fit X =
     (case X of
        [] \<Rightarrow> Inl ValueError
      | x # xs \<Rightarrow> Inr \<lparr>data_min = fold (map2 min) xs x, data_max = fold (map2 max) xs x\<rparr>)"

definition scale_of :: "min_max_scaler \<Rightarrow> real list" where
  "scale_of s =
     map2 (\<lambda>hi lo. 1 / (if hi - lo < 10 / 2 ^ 52 then 1 else hi - lo)) (data_max s) (data_min s)"

definition min_of :: "min_max_scaler \<Rightarrow> real list" where
  "min_of s = map2 (\<lambda>lo sc. 0 - lo * sc) (data_min s) (scale_of s)"

definition minmax_transform :: "min_max_scaler \<Rightarrow> real list list \<Rightarrow> real list list" where
  "minmax_transform s X =
     map (\<lambda>x. map2 (+) (map2 (*) x (scale_of s)) (min_of s)) X"

text \<open>
  The recurrent trainer:
  \<^verbatim>\<open>
  scaler = MinMaxScaler()
  X_scaled = scaler.fit_transform(X)
  X_train, X_test, y_train, y_test = train_test_split(X_scaled, y, test_size=0.2, random_state=42)
  \<close>
  The result is the fitted scaler with the scaled training and test partitions.
\<close>

definition lstm_scaling ::
  "(nat \<Rightarrow> nat list) \<Rightarrow> real list list
     \<Rightarrow> sk_error + (min_max_scaler \<times> real list list \<times> real list list)" where
  "lstm_scaling permutation X =
     (case minmax_fit X of
        Inl e \<Rightarrow> Inl e
      | Inr scaler \<Rightarrow>
          (case train_test_split permutation (minmax_transform scaler X) of
             Inl e \<Rightarrow> Inl e
           | Inr (X_train, X_test) \<Rightarrow> Inr (scaler, X_train, X_test)))"

text \<open>
  The shape of the Random Forest trainer, which the notebook of the recurrent trainer
  announces as well ("Fit the scaler on the training data and apply the transformation
  to both training and testing datasets"):
  \<^verbatim>\<open>
  X_train, X_test, y_train, y_test = train_test_split(X, y, test_size=0.2, random_state=42)
  scaler = StandardScaler()
  X_train_scaled = scaler.fit_transform(X_train)
  X_test_scaled = scaler.transform(X_test)
  \<close>
  here with the scaler as a parameter (its \<open>fit\<close> and its \<open>transform\<close>).
\<close>

definition split_then_scale ::
  "('x list \<Rightarrow> sk_error + 's) \<Rightarrow> ('s \<Rightarrow> 'x list \<Rightarrow> 'y list) \<Rightarrow> (nat \<Rightarrow> nat list) \<Rightarrow> 'x list
     \<Rightarrow> sk_error + ('s \<times> 'y list \<times> 'y list)" where
  "split_then_scale fit transform permutation X =
     (case train_test_split permutation X of
        Inl e \<Rightarrow> Inl e
      | Inr (X_train, X_test) \<Rightarrow>
          (case fit X_train of
             Inl e \<Rightarrow> Inl e
           | Inr scaler \<Rightarrow> Inr (scaler, transform scaler X_train, transform scaler X_test)))"

section \<open>Notions used in the statements\<close>

text \<open>The rows of one ticker, in the order of the frame.\<close>

definition ticker_rows :: "string \<Rightarrow> ('a, 'z) stock_row_scheme frame \<Rightarrow> ('a, 'z) stock_row_scheme frame" where
  "ticker_rows T df = filter (\<lambda>(i, r). Ticker r = Some T) df"

text \<open>The adjusted closes of a frame, in its order.\<close>

definition prices :: "('a, 'z) stock_row_scheme frame \<Rightarrow> 'a list" where
  "prices df = map (\<lambda>(i, r). Adj_Close r) df"

text \<open>The six derived columns of one series of adjusted closes.\<close>

definition series_features :: "pandas \<Rightarrow> fl list \<Rightarrow> (fl \<times> fl \<times> fl \<times> fl \<times> fl \<times> fl) list" where
  "series_features lib xs =
     zip (rolling_mean lib 7 xs) (zip (rolling_mean lib 14 xs) (zip (pct_change xs)
       (zip (rolling_std lib 7 (pct_change xs)) (zip (shift 1 xs) (shift 2 xs)))))"

text \<open>No raw column other than the adjusted close is missing.\<close>

definition other_columns_present :: "('a, 'z) stock_row_scheme \<Rightarrow> bool" where
  "other_columns_present r \<longleftrightarrow>
     Date r \<noteq> None \<and> Close r \<noteq> None \<and> High r \<noteq> None \<and> Low r \<noteq> None \<and>
     Open r \<noteq> None \<and> Volume r \<noteq> None \<and> Company r \<noteq> None \<and> Ticker r \<noteq> None"

text \<open>
  An adjusted close that is a finite number between \<open>2^-20\<close> and \<open>2^20\<close> in
  magnitude (about a millionth and a million), as the prices of a market are.  Among
  such prices no return and no running sum leaves the range of a double, and the
  rounding errors of the sums, which the model does not track, are small against the
  prices.
\<close>

definition ordinary_price :: "fl \<Rightarrow> bool" where
  "ordinary_price v = (case v of Fin x \<Rightarrow> 1 / 2 ^ 20 \<le> \<bar>x\<bar> \<and> \<bar>x\<bar> \<le> 2 ^ 20 | _ \<Rightarrow> False)"

text \<open>The raw columns of a row of the processed table.\<close>

definition raw_part :: "processed_row frame \<Rightarrow> num_row frame" where
  "raw_part df = map (\<lambda>(i, r). (i, stock_row.truncate r)) df"

text \<open>
  Modelled from the spec, for comparison with \<open>feature_frame\<close>: section 4.1 computes the
  derived fields "per ticker partition (sorted ascending by date)".  \<open>by_date\<close> puts a
  frame in ascending date order (a stable sort; the code has no such step) and
  \<open>spec_feature_frame\<close> derives the fields from the frame in that order.
\<close>

definition by_date :: "('a, 'z) stock_row_scheme frame \<Rightarrow> ('a, 'z) stock_row_scheme frame" where
  "by_date df = sort_key (\<lambda>(i, r). Date r) df"

definition spec_feature_frame :: "pandas \<Rightarrow> raw_row list \<Rightarrow> processed_row frame" where
  "spec_feature_frame lib rows = add_features lib (by_date (clean lib (read_sql rows)))"



text \<open>A row with its date blanked.\<close>

definition without_date :: "('a, 'z) stock_row_scheme \<Rightarrow> ('a, 'z) stock_row_scheme" where
  "without_date r = r\<lparr>Date := None\<rparr>"

section \<open>Sample tables\<close>

text \<open>
  Fifteen rows of one ticker with the adjusted closes \<open>10, 11, ..., 24\<close> on the days
  \<open>1, ..., 15\<close> and no missing field, and a pandas whose parser reads no text as a
  number.
\<close>

definition xom_row :: "nat \<Rightarrow> real \<Rightarrow> raw_row" where
  "xom_row d p =
     \<lparr>Date = Some d, Adj_Close = Num p, Close = Some p, High = Some p, Low = Some p,
      Open = Some p, Volume = Some 1000, Company = Some ''Exxon Mobil'', Ticker = Some ''XOM''\<rparr>"

definition xom15 :: "raw_row list" where
  "xom15 = map2 xom_row [1, 2, 3, 4, 5, 6, 7, 8, 9, 10, 11, 12, 13, 14, 15]
     [10, 11, 12, 13, 14, 15, 16, 17, 18, 19, 20, 21, 22, 23, 24]"

definition no_parse :: pandas where
  "no_parse =
     \<lparr>parse_number = (\<lambda>s. NaN), mean_out_of_range = (\<lambda>w xs i. NaN),
      std_out_of_range = (\<lambda>w xs i. NaN)\<rparr>"

text \<open>Four rows, the second with a text and the third with no adjusted close.\<close>

definition dirty4 :: "raw_row list" where
  "dirty4 =
     [xom_row 1 10, (xom_row 2 0)\<lparr>Adj_Close := Txt ''n/a''\<rparr>,
      (xom_row 3 0)\<lparr>Adj_Close := Null\<rparr>, xom_row 4 12]"



text \<open>
  Sixteen rows of one ticker with the adjusted closes \<open>10, ..., 25\<close>; the row with
  the label 14 has no volume.
\<close>

definition gap16 :: "raw_row list" where
  "gap16 = map2 xom_row [1, 2, 3, 4, 5, 6, 7, 8, 9, 10, 11, 12, 13, 14]
       [10, 11, 12, 13, 14, 15, 16, 17, 18, 19, 20, 21, 22, 23]
     @ [(xom_row 15 24)\<lparr>Volume := None\<rparr>, xom_row 16 25]"

text \<open>
  Sixteen rows of one ticker, twelve with the adjusted close \<open>2^-520\<close> and then four
  with \<open>2^520\<close>: the quotient of the thirteenth by the twelfth is \<open>2^1040\<close>, beyond the
  range of a double.
\<close>

definition ovf16 :: "raw_row list" where
  "ovf16 = map2 xom_row [1, 2, 3, 4, 5, 6, 7, 8, 9, 10, 11, 12, 13, 14, 15, 16]
     (replicate 12 (1 / 2 ^ 520) @ replicate 4 (2 ^ 520))"

text \<open>The fifteen rows of \<open>xom15\<close> with rows of a second ticker stored among them.\<close>

definition cvx_row :: "nat \<Rightarrow> real \<Rightarrow> raw_row" where
  "cvx_row d p = (xom_row d p)\<lparr>Company := Some ''Chevron'', Ticker := Some ''CVX''\<rparr>"

definition mixed17 :: "raw_row list" where
  "mixed17 = cvx_row 1 500 # take 7 xom15 @ cvx_row 2 0 # drop 7 xom15"

text \<open>Two states of the database with the same raw table.\<close>

definition fresh_db :: database where
  "fresh_db = \<lparr>stocks = xom15, processed_stocks = None\<rparr>"

definition stale_db :: database where
  "stale_db = \<lparr>stocks = xom15, processed_stocks = Some []\<rparr>"

text \<open>
  A batch of three tickers: the download of the first raises, the write of the second
  raises, the third goes through.
\<close>

definition flaky :: environment where
  "flaky =
     \<lparr>download = (\<lambda>t. if t = ''XOM'' then Inl (Exception ''timeout'')
                       else Inr [xom_row 1 10]),
      write_error = (\<lambda>t. if t = ''CVX'' then Some (Exception ''database is locked'') else None)\<rparr>"

definition batch3 :: "(string \<times> string) list" where
  "batch3 = [(''XOM'', ''Exxon Mobil''), (''CVX'', ''Chevron''), (''COP'', ''ConocoPhillips'')]"

definition empty_world :: world where
  "empty_world = \<lparr>db = \<lparr>stocks = [], processed_stocks = None\<rparr>, printed = []\<rparr>"

text \<open>Two rows of one ticker, the later day stored first.\<close>

definition swapped2 :: "raw_row list" where
  "swapped2 = [xom_row 2 20, xom_row 1 10]"

text \<open>A feature matrix of two samples.\<close>

definition two_samples :: "real list list" where
  "two_samples = [[20, 33 / 2, 1 / 100, 22, 21], [21, 35 / 2, 1 / 200, 23, 22]]"

section \<open>Groups\<close>

lemma length_scatter: "length (scatter nan res ks) = length ks"
  by (induction nan res ks rule: scatter.induct) (auto simp: fun_upd_def split: list.splits)

lemma group_of_Nil [simp]: "group_of k [] xs = []" "group_of k ks [] = []"
  by (simp_all add: group_of_def)

lemma group_of_Cons:
  "group_of k (k' # ks) (x # xs) = (if k' = Some k then x # group_of k ks xs else group_of k ks xs)"
  by (simp add: group_of_def)

lemma length_group_of:
  "length xs = length ks \<Longrightarrow> length (group_of k ks xs) = length (filter (\<lambda>x. x = Some k) ks)"
  by (induction ks xs rule: list_induct2') (auto simp: group_of_Cons)

lemma group_of_scatter:
  "length (filter (\<lambda>x. x = Some k) ks) \<le> length (res k) \<Longrightarrow>
   group_of k ks (scatter nan res ks) = take (length (filter (\<lambda>x. x = Some k) ks)) (res k)"
proof (induction nan res ks rule: scatter.induct)
  case (1 nan res)
  then show ?case by simp
next
  case (2 nan res ks)
  then show ?case by (simp add: group_of_Cons)
next
  case (3 nan res k' ks)
  show ?case
  proof (cases "res k'")
    case Nil
    with 3 show ?thesis by (auto simp: group_of_Cons)
  next
    case (Cons v vs)
    with 3 show ?thesis by (auto simp: group_of_Cons fun_upd_def)
  qed
qed

lemma group_of_map:
  "group_of k ks (map f xs) = map f (group_of k ks xs)"
  by (induction ks xs rule: list_induct2') (auto simp: group_of_Cons)

lemma group_of_zip:
  "length xs = length ys \<Longrightarrow>
   group_of k ks (zip xs ys) = zip (group_of k ks xs) (group_of k ks ys)"
proof (induction xs ys arbitrary: ks rule: list_induct2)
  case Nil
  then show ?case by simp
next
  case (Cons x xs y ys)
  then show ?case by (cases ks) (auto simp: group_of_Cons)
qed

lemma group_of_keys:
  "group_of k ks ks = replicate (length (filter (\<lambda>x. x = Some k) ks)) (Some k)"
  by (induction ks) (auto simp: group_of_Cons)

lemma group_of_replicate:
  "length xs = n \<Longrightarrow> group_of k (replicate n (Some k)) xs = xs"
  by (induction xs arbitrary: n) (auto simp: group_of_Cons)

lemma groupby_apply_group:
  assumes "\<And>ys. length (f ys) = length ys" "length col = length keys"
  shows "group_of k keys (groupby_apply nan keys col f) = f (group_of k keys col)"
  using assms by (simp add: groupby_apply_def group_of_scatter length_group_of)

lemma length_groupby_apply: "length (groupby_apply nan keys col f) = length keys"
  by (simp add: groupby_apply_def length_scatter)

lemma groupby_apply_single:
  assumes "\<And>ys. length (f ys) = length ys" "length col = n"
  shows "groupby_apply nan (replicate n (Some k)) col f = f col"
proof -
  have "group_of k (replicate n (Some k)) (groupby_apply nan (replicate n (Some k)) col f)
        = f (group_of k (replicate n (Some k)) col)"
    using assms by (intro groupby_apply_group) auto
  then show ?thesis
    using assms by (simp add: group_of_replicate length_groupby_apply)
qed

lemma length_rolling_mean [simp]: "length (rolling_mean lib w xs) = length xs"
  by (simp add: rolling_mean_def)

lemma length_rolling_std [simp]: "length (rolling_std lib w xs) = length xs"
  by (simp add: rolling_std_def)

lemma length_shift [simp]: "length (shift n xs) = length xs"
  by (simp add: shift_def)

lemma length_ffill_from [simp]: "length (ffill_from p xs) = length xs"
  by (induction p xs rule: ffill_from.induct) auto

lemma length_pct_change [simp]: "length (pct_change xs) = length xs"
  by (simp add: pct_change_def ffill_def Let_def)

lemma length_series_features [simp]: "length (series_features lib xs) = length xs"
  by (simp add: series_features_def)

lemma length_derived_columns:
  "length adj = length keys \<Longrightarrow> length (derived_columns lib keys adj) = length keys"
  by (simp add: derived_columns_def Let_def length_groupby_apply)

lemma group_of_derived_columns:
  assumes "length adj = length keys"
  shows "group_of T keys (derived_columns lib keys adj) = series_features lib (group_of T keys adj)"
  using assms
  by (simp add: derived_columns_def series_features_def Let_def group_of_zip
      length_groupby_apply groupby_apply_group)

lemma derived_columns_single:
  assumes "length adj = n"
  shows "derived_columns lib (replicate n (Some T)) adj = series_features lib adj"
  using assms
  by (simp add: derived_columns_def series_features_def Let_def groupby_apply_single)

lemma ticker_rows_group: "ticker_rows T df = group_of T (map (\<lambda>(i, r). Ticker r) df) df"
  by (induction df) (auto simp: ticker_rows_def group_of_Cons)

lemma group_of_col:
  "group_of T (map (\<lambda>(i, r). Ticker r) df) (map f df) = map f (ticker_rows T df)"
  by (simp add: ticker_rows_group group_of_map)

lemma Ticker_with_features [simp]: "Ticker (with_features r d) = Ticker r"
  by (cases d) (simp add: with_features_def stock_row.defs feature_row.defs)

lemma keys_add_features:
  "map (\<lambda>(i, r). Ticker r) (add_features lib df) = map (\<lambda>(i, r). Ticker r) df"
proof -
  let ?cols = "derived_columns lib (map (\<lambda>(i, r). Ticker r) df) (map (\<lambda>(i, r). Adj_Close r) df)"
  have len: "length ?cols = length df" by (simp add: length_derived_columns)
  have "map (\<lambda>(i, r). Ticker r) (add_features lib df)
      = map ((\<lambda>(i, r). Ticker r) \<circ> fst) (zip df ?cols)"
    by (auto simp: add_features_def)
  also have "\<dots> = map (\<lambda>(i, r). Ticker r) (map fst (zip df ?cols))" by simp
  also have "\<dots> = map (\<lambda>(i, r). Ticker r) df" using len by simp
  finally show ?thesis .
qed

text \<open>The rows of a ticker get the derived columns of the ticker's own series.\<close>

lemma ticker_rows_add_features:
  "ticker_rows T (add_features lib df) =
     map (\<lambda>((i, r), d). (i, with_features r d))
       (zip (ticker_rows T df) (series_features lib (map (\<lambda>(i, r). Adj_Close r) (ticker_rows T df))))"
proof -
  let ?keys = "map (\<lambda>(i, r). Ticker r) df"
  let ?adj = "map (\<lambda>(i, r). Adj_Close r) df"
  have len: "length (derived_columns lib ?keys ?adj) = length df"
    by (simp add: length_derived_columns)
  have "ticker_rows T (add_features lib df) = group_of T ?keys (add_features lib df)"
    by (simp add: ticker_rows_group keys_add_features)
  also have "\<dots> = map (\<lambda>((i, r), d). (i, with_features r d))
       (group_of T ?keys (zip df (derived_columns lib ?keys ?adj)))"
    by (simp add: add_features_def group_of_map)
  also have "group_of T ?keys (zip df (derived_columns lib ?keys ?adj))
      = zip (group_of T ?keys df) (group_of T ?keys (derived_columns lib ?keys ?adj))"
    using len by (simp add: group_of_zip)
  also have "group_of T ?keys (derived_columns lib ?keys ?adj) = series_features lib (group_of T ?keys ?adj)"
    by (simp add: group_of_derived_columns)
  finally show ?thesis by (simp add: group_of_col ticker_rows_group [symmetric])
qed

section \<open>Series\<close>

lemma take_as_map_nth: "b \<le> length xs \<Longrightarrow> take b xs = map ((!) xs) [0..<b]"
  by (rule nth_equalityI) auto

lemma window_as_map_nth:
  "k < length xs \<Longrightarrow> window w xs k = map ((!) xs) [Suc k - w..<Suc k]"
  by (simp add: window_def take_as_map_nth drop_map)

lemma observed_Nil [simp]: "observed [] = []"
  by (simp add: observed_def)

lemma observed_Cons [simp]:
  "observed (Fin x # xs) = x # observed xs" "observed (PInf # xs) = observed xs"
  "observed (NInf # xs) = observed xs" "observed (NaN # xs) = observed xs"
  by (simp_all add: observed_def)

lemma observed_map_Fin [simp]: "observed (map Fin ys) = ys"
  by (induction ys) auto

lemma observed_map_Fin': "observed (map (\<lambda>j. Fin (g j)) js) = map g js"
  by (induction js) auto

lemma length_observed_le: "length (observed win) \<le> length win"
proof (induction win)
  case Nil
  then show ?case by simp
next
  case (Cons v win)
  then show ?case by (cases v) auto
qed

lemma length_observed_less:
  "v \<in> set win \<Longrightarrow> (\<And>x. v \<noteq> Fin x) \<Longrightarrow> length (observed win) < length win"
proof (induction win)
  case Nil
  then show ?case by simp
next
  case (Cons u win)
  show ?case
  proof (cases "u = v")
    case True
    then show ?thesis
      using length_observed_le [of win] Cons.prems(2) by (cases u) auto
  next
    case False
    with Cons have "length (observed win) < length win" by auto
    then show ?thesis by (cases u) auto
  qed
qed

lemma length_window: "k < length xs \<Longrightarrow> length (window w xs k) = min (Suc k) w"
  by (auto simp: window_def)

lemma rolling_mean_nth:
  "k < length xs \<Longrightarrow>
   rolling_mean lib w xs ! k =
     (let obs = observed (window w xs k)
      in if length obs < w \<or> length obs = 0 then NaN
         else if in_range w xs k then Fin (mean obs)
         else mean_out_of_range lib w xs k)"
  by (simp add: rolling_mean_def Let_def)

lemma rolling_std_nth:
  "k < length xs \<Longrightarrow>
   rolling_std lib w xs ! k =
     (let obs = observed (window w xs k)
      in if length obs < w \<or> length obs \<le> 1 then NaN
         else if in_range w xs k then Fin (sample_std obs)
         else std_out_of_range lib w xs k)"
  by (simp add: rolling_std_def Let_def)

text \<open>Too few rows, or a value in the window that is not finite: no result.\<close>

lemma rolling_mean_short:
  assumes "k < length xs" "Suc k < w"
  shows "rolling_mean lib w xs ! k = NaN"
proof -
  have "length (observed (window w xs k)) \<le> length (window w xs k)"
    by (rule length_observed_le)
  also have "\<dots> < w" using assms by (simp add: length_window)
  finally show ?thesis using assms(1) by (simp add: rolling_mean_nth)
qed

lemma rolling_std_short:
  assumes "k < length xs" "Suc k < w"
  shows "rolling_std lib w xs ! k = NaN"
proof -
  have "length (observed (window w xs k)) \<le> length (window w xs k)"
    by (rule length_observed_le)
  also have "\<dots> < w" using assms by (simp add: length_window)
  finally show ?thesis using assms(1) by (simp add: rolling_std_nth)
qed

lemma window_gap:
  assumes "k < length xs" "j \<le> k" "k < j + w" "\<And>x. xs ! j \<noteq> Fin x"
  shows "length (observed (window w xs k)) < w"
proof -
  have w: "window w xs k = map ((!) xs) [Suc k - w..<Suc k]"
    using assms by (simp add: window_as_map_nth)
  have "j \<in> set [Suc k - w..<Suc k]" using assms by auto
  then have "xs ! j \<in> set (window w xs k)"
    unfolding w by (simp del: upt_Suc)
  then have "length (observed (window w xs k)) < length (window w xs k)"
    using assms(4) by (rule length_observed_less)
  also have "\<dots> \<le> w" using assms by (simp add: length_window)
  finally show ?thesis .
qed


lemma rolling_std_gap:
  assumes "k < length xs" "j \<le> k" "k < j + w" "\<And>x. xs ! j \<noteq> Fin x"
  shows "rolling_std lib w xs ! k = NaN"
  using window_gap [OF assms] assms(1) by (simp add: rolling_std_nth)

text \<open>Finite values of moderate size up to row \<open>k\<close>: the mean and deviation of the window.\<close>

lemma sum_list_map_upt: "sum_list (map f [m..<Suc n]) = (\<Sum>j = m..n. f j)"
proof -
  have "{m..<Suc n} = {m..n}" by auto
  then show ?thesis by (simp add: interv_sum_list_conv_sum_set_nat del: upt_Suc)
qed

lemma set_observed: "set (observed ys) = {x. Fin x \<in> set ys}"
proof (induction ys)
  case Nil
  then show ?case by simp
next
  case (Cons v ys)
  then show ?case by (cases v) auto
qed

lemma window_Fin:
  assumes "k < length xs" "\<And>j. Suc k - w \<le> j \<Longrightarrow> j \<le> k \<Longrightarrow> xs ! j = Fin (p j)"
  shows "observed (window w xs k) = map p [Suc k - w..<Suc k]"
proof -
  have "map ((!) xs) [Suc k - w..<Suc k] = map (\<lambda>j. Fin (p j)) [Suc k - w..<Suc k]"
    using assms(2) by (intro map_cong) auto
  then show ?thesis
    using assms(1) by (simp only: window_as_map_nth observed_map_Fin')
qed

lemma history_in_range:
  assumes "k < length xs" "w \<le> 1000" "\<And>j x. j \<le> k \<Longrightarrow> xs ! j = Fin x \<Longrightarrow> moderate x"
  shows "in_range w xs k"
proof -
  have "moderate x" if "Fin x \<in> set (take (Suc k) xs)" for x
  proof -
    from that obtain j where "j < length (take (Suc k) xs)" "take (Suc k) xs ! j = Fin x"
      by (auto simp: in_set_conv_nth)
    then have "j \<le> k" "xs ! j = Fin x" by auto
    then show ?thesis by (rule assms(3))
  qed
  then show ?thesis
    using assms(2) by (auto simp: in_range_def list_all_iff set_observed)
qed

lemma rolling_mean_steady:
  assumes "k < length xs" "0 < w" "w \<le> 1000"
    and "\<And>j. j \<le> k \<Longrightarrow> xs ! j = Fin (p j) \<and> moderate (p j)"
  shows "rolling_mean lib w xs ! k =
           (if Suc k < w then NaN else Fin ((\<Sum>j = Suc k - w..k. p j) / real w))"
proof (cases "Suc k < w")
  case True
  then show ?thesis using assms(1) by (simp add: rolling_mean_short)
next
  case False
  have obs: "observed (window w xs k) = map p [Suc k - w..<Suc k]"
    using assms(1,4) by (intro window_Fin) auto
  have len: "length (map p [Suc k - w..<Suc k]) = w" using False assms(2) by auto
  have "mean (map p [Suc k - w..<Suc k]) = (\<Sum>j = Suc k - w..k. p j) / real w"
    unfolding mean_def len by (simp only: sum_list_map_upt)
  moreover have "in_range w xs k"
    using assms(1,3) by (rule history_in_range) (use assms(4) in auto)
  ultimately show ?thesis
    using assms(1,2) False len by (simp add: rolling_mean_nth obs Let_def del: upt_Suc)
qed

lemma rolling_std_steady:
  assumes "k < length xs" "7 \<le> Suc k"
    and "\<And>j. k - 6 \<le> j \<Longrightarrow> j \<le> k \<Longrightarrow> xs ! j = Fin (p j)"
    and "\<And>j x. j \<le> k \<Longrightarrow> xs ! j = Fin x \<Longrightarrow> moderate x"
  shows "rolling_std lib 7 xs ! k =
           Fin (sqrt ((\<Sum>j = k - 6..k. (p j - (\<Sum>i = k - 6..k. p i) / 7)\<^sup>2) / 6))"
proof -
  have "observed (window 7 xs k) = map p [Suc k - 7..<Suc k]"
    using assms(1,3) by (intro window_Fin) auto
  then have obs: "observed (window 7 xs k) = map p [k - 6..<Suc k]" by simp
  have len: "length (map p [k - 6..<Suc k]) = 7" using assms(2) by auto
  have m: "mean (map p [k - 6..<Suc k]) = (\<Sum>i = k - 6..k. p i) / 7"
    unfolding mean_def len by (simp only: sum_list_map_upt)
  have "sample_std (map p [k - 6..<Suc k])
      = sqrt ((\<Sum>j = k - 6..k. (p j - (\<Sum>i = k - 6..k. p i) / 7)\<^sup>2) / 6)"
    unfolding sample_std_def m len
    by (simp only: map_map o_def sum_list_map_upt) simp
  moreover have "in_range 7 xs k"
    using assms(1) by (rule history_in_range) (use assms(4) in auto)
  ultimately show ?thesis
    using assms(1) len by (simp add: rolling_std_nth obs Let_def del: upt_Suc)
qed

lemma shift_nth:
  "k < length xs \<Longrightarrow> shift n xs ! k = (if k < n then NaN else xs ! (k - n))"
  by (auto simp: shift_def nth_append)

lemma ffill_from_clean: "NaN \<notin> set xs \<Longrightarrow> ffill_from p xs = xs"
proof (induction xs arbitrary: p)
  case Nil
  then show ?case by simp
next
  case (Cons x xs)
  then show ?case by (cases x) auto
qed

lemma ffill_clean: "NaN \<notin> set xs \<Longrightarrow> ffill xs = xs"
  by (simp add: ffill_def ffill_from_clean)

lemma pct_NaN [simp]: "pct v NaN = NaN"
  by (cases v) (simp_all add: pct_def)

lemma length_ffill [simp]: "length (ffill xs) = length xs"
  by (simp add: ffill_def)

lemma pct_change_nth:
  "k < length xs \<Longrightarrow> pct_change xs ! k = pct (ffill xs ! k) (shift 1 (ffill xs) ! k)"
  by (simp add: pct_change_def Let_def)

lemma pct_change_nth_0: "0 < length xs \<Longrightarrow> pct_change xs ! 0 = NaN"
  by (simp add: pct_change_nth shift_nth)

lemma pct_change_clean_nth:
  assumes "k < length xs" "NaN \<notin> set xs"
  shows "pct_change xs ! k = (if k = 0 then NaN else pct (xs ! k) (xs ! (k - 1)))"
  using assms by (simp add: pct_change_nth shift_nth ffill_clean)

section \<open>The rows of one ticker in the feature frame\<close>

lemma with_features_sel [simp]:
  "MA_7day (with_features r (m7, m14, ret, vol, l1, l2)) = m7"
  "MA_14day (with_features r (m7, m14, ret, vol, l1, l2)) = m14"
  "Daily_Return (with_features r (m7, m14, ret, vol, l1, l2)) = ret"
  "Volatility (with_features r (m7, m14, ret, vol, l1, l2)) = vol"
  "Lag_1 (with_features r (m7, m14, ret, vol, l1, l2)) = l1"
  "Lag_2 (with_features r (m7, m14, ret, vol, l1, l2)) = l2"
  "Adj_Close (with_features r d) = Adj_Close r"
  "stock_row.truncate (with_features r d) = r"
  "complete_raw (with_features r d) = complete_raw r"
  by (cases d; simp add: with_features_def stock_row.defs feature_row.defs complete_raw_def)+

lemma clean_numeric: "(i, r) \<in> set (clean lib df) \<Longrightarrow> Adj_Close r \<noteq> NaN"
  by (auto simp: clean_def dropna_adj_close_def)

lemma ticker_rows_subset: "set (ticker_rows T df) \<subseteq> set df"
  by (auto simp: ticker_rows_def)

lemma length_prices [simp]: "length (prices df) = length df"
  by (simp add: prices_def)

lemma prices_nth: "k < length df \<Longrightarrow> prices df ! k = Adj_Close (snd (df ! k))"
  by (simp add: prices_def case_prod_unfold)

text \<open>The cleaned rows of a ticker and its rows in the feature frame.\<close>

lemma feature_group:
  "ticker_rows T (feature_frame lib rows) =
     map (\<lambda>((i, r), d). (i, with_features r d))
       (zip (ticker_rows T (clean lib (read_sql rows)))
          (series_features lib (prices (ticker_rows T (clean lib (read_sql rows))))))"
  by (simp add: feature_frame_def ticker_rows_add_features prices_def)

lemma feature_group_prices:
  fixes lib rows T
  defines "C \<equiv> ticker_rows T (clean lib (read_sql rows))"
  defines "G \<equiv> ticker_rows T (feature_frame lib rows)"
  shows "prices G = prices C" "length G = length C"
proof -
  have G: "G = map (\<lambda>((i, r), d). (i, with_features r d)) (zip C (series_features lib (prices C)))"
    unfolding G_def C_def by (rule feature_group)
  show lenG: "length G = length C" by (simp add: G)
  have "map (\<lambda>(i, r). Adj_Close r) G =
      map ((\<lambda>(i, r). Adj_Close r) \<circ> fst) (zip C (series_features lib (prices C)))"
    by (auto simp: G)
  also have "\<dots> = map (\<lambda>(i, r). Adj_Close r) C"
    by (simp add: map_fst_zip flip: map_map)
  finally show "prices G = prices C" by (simp add: prices_def)
qed

lemma group_prices_clean: "NaN \<notin> set (prices (ticker_rows T (feature_frame lib rows)))"
proof -
  have "Adj_Close r \<noteq> NaN" if "(i, r) \<in> set (ticker_rows T (clean lib (read_sql rows)))" for i r
    using that ticker_rows_subset [of T "clean lib (read_sql rows)"] clean_numeric by blast
  then have "NaN \<notin> set (prices (ticker_rows T (clean lib (read_sql rows))))"
    by (force simp: prices_def)
  then show ?thesis by (simp add: feature_group_prices(1))
qed

lemma feature_group_nth:
  fixes lib rows T
  defines "G \<equiv> ticker_rows T (feature_frame lib rows)"
  assumes k: "k < length G"
  shows "snd (G ! k) =
           with_features (snd (ticker_rows T (clean lib (read_sql rows)) ! k))
             (series_features lib (prices G) ! k)"
    and "fst (G ! k) = fst (ticker_rows T (clean lib (read_sql rows)) ! k)"
proof -
  let ?C = "ticker_rows T (clean lib (read_sql rows))"
  have G: "G = map (\<lambda>((i, r), d). (i, with_features r d)) (zip ?C (series_features lib (prices ?C)))"
    unfolding G_def by (rule feature_group)
  have p: "prices G = prices ?C" "length G = length ?C"
    unfolding G_def by (rule feature_group_prices)+
  have kz: "k < length (zip ?C (series_features lib (prices ?C)))"
    using k p by simp
  have "G ! k = (\<lambda>((i, r), d). (i, with_features r d)) (zip ?C (series_features lib (prices ?C)) ! k)"
    unfolding G using kz by (rule nth_map)
  also have "zip ?C (series_features lib (prices ?C)) ! k
      = (?C ! k, series_features lib (prices ?C) ! k)"
    using kz by simp
  finally have "G ! k = (fst (?C ! k), with_features (snd (?C ! k)) (series_features lib (prices G) ! k))"
    by (simp add: p case_prod_unfold)
  then show "snd (G ! k) = with_features (snd (?C ! k)) (series_features lib (prices G) ! k)"
    and "fst (G ! k) = fst (?C ! k)" by simp_all
qed

lemma series_features_nth:
  "k < length xs \<Longrightarrow>
   series_features lib xs ! k =
     (rolling_mean lib 7 xs ! k, rolling_mean lib 14 xs ! k, pct_change xs ! k,
      rolling_std lib 7 (pct_change xs) ! k, shift 1 xs ! k, shift 2 xs ! k)"
  by (simp add: series_features_def)

text \<open>Every derived field of a ticker's \<open>k\<close>-th row, from the ticker's own prices.\<close>

lemma feature_fields:
  fixes lib rows T
  defines "G \<equiv> ticker_rows T (feature_frame lib rows)"
  assumes k: "k < length G"
  shows "MA_7day (snd (G ! k)) = rolling_mean lib 7 (prices G) ! k"
    and "MA_14day (snd (G ! k)) = rolling_mean lib 14 (prices G) ! k"
    and "Daily_Return (snd (G ! k)) = pct_change (prices G) ! k"
    and "Volatility (snd (G ! k)) = rolling_std lib 7 (pct_change (prices G)) ! k"
    and "Lag_1 (snd (G ! k)) = shift 1 (prices G) ! k"
    and "Lag_2 (snd (G ! k)) = shift 2 (prices G) ! k"
proof -
  have row: "snd (G ! k) =
           with_features (snd (ticker_rows T (clean lib (read_sql rows)) ! k))
             (series_features lib (prices G) ! k)"
    using k unfolding G_def by (rule feature_group_nth)
  have sf: "series_features lib (prices G) ! k =
     (rolling_mean lib 7 (prices G) ! k, rolling_mean lib 14 (prices G) ! k,
      pct_change (prices G) ! k,
      rolling_std lib 7 (pct_change (prices G)) ! k,
      shift 1 (prices G) ! k, shift 2 (prices G) ! k)"
    using k by (intro series_features_nth) simp
  show "MA_7day (snd (G ! k)) = rolling_mean lib 7 (prices G) ! k"
    and "MA_14day (snd (G ! k)) = rolling_mean lib 14 (prices G) ! k"
    and "Daily_Return (snd (G ! k)) = pct_change (prices G) ! k"
    and "Volatility (snd (G ! k)) = rolling_std lib 7 (pct_change (prices G)) ! k"
    and "Lag_1 (snd (G ! k)) = shift 1 (prices G) ! k"
    and "Lag_2 (snd (G ! k)) = shift 2 (prices G) ! k"
    unfolding row sf by simp_all
qed

text \<open>The returns of a group: \<open>x / y - 1\<close> in double arithmetic, from the second row on.\<close>

lemma group_returns_nth:
  assumes "k < length (ticker_rows T (feature_frame lib rows))"
  shows "pct_change (prices (ticker_rows T (feature_frame lib rows))) ! k =
           (if k = 0 then NaN
            else pct (prices (ticker_rows T (feature_frame lib rows)) ! k)
                   (prices (ticker_rows T (feature_frame lib rows)) ! (k - 1)))"
  using assms by (intro pct_change_clean_nth group_prices_clean) simp

section \<open>Staying in the range of a double\<close>

lemma threshold_large: "2 ^ 1000 < overflow_threshold"
proof -
  have "(2::real) ^ 1000 + 2 ^ 970 \<le> 2 ^ 1000 + 2 ^ 1000"
    by (intro add_left_mono power_increasing) simp_all
  also have "\<dots> = 2 ^ 1001" by simp
  also have "\<dots> < (2::real) ^ 1024" by (intro power_strict_increasing) simp_all
  finally show ?thesis by (simp add: overflow_threshold_def)
qed

lemma fl_round_Fin: "\<bar>x\<bar> \<le> 2 ^ 1000 \<Longrightarrow> fl_round x = Fin x"
  using threshold_large by (auto simp: fl_round_def)


lemma moderate_round: "moderate x \<Longrightarrow> fl_round x = Fin x"
proof -
  assume "moderate x"
  then have "\<bar>x\<bar> \<le> 2 ^ 500" by (simp add: moderate_def)
  also have "(2::real) ^ 500 \<le> 2 ^ 1000" by (intro power_increasing) simp_all
  finally show ?thesis by (rule fl_round_Fin)
qed

lemma ordinary_quotient:
  assumes "ordinary_price (Fin a)" "ordinary_price (Fin b)"
  shows "\<bar>a / b\<bar> \<le> 2 ^ 40" and "b \<noteq> 0"
proof -
  have a: "\<bar>a\<bar> \<le> 2 ^ 20" and b: "1 / 2 ^ 20 \<le> \<bar>b\<bar>"
    using assms by (simp_all add: ordinary_price_def)
  have "(0::real) < 1 / 2 ^ 20" by simp
  with b have bpos: "0 < \<bar>b\<bar>" by linarith
  then show "b \<noteq> 0" by auto
  have "\<bar>a\<bar> / \<bar>b\<bar> \<le> 2 ^ 20 / (1 / 2 ^ 20)"
    using a b by (intro frac_le) simp_all
  also have "\<dots> = (2::real) ^ 20 * 2 ^ 20" by simp
  also have "\<dots> = (2::real) ^ 40" by (simp flip: power_add)
  finally show "\<bar>a / b\<bar> \<le> 2 ^ 40" by simp
qed

text \<open>Between ordinary prices the return is a finite number of moderate size.\<close>

lemma ordinary_return:
  assumes "ordinary_price (Fin a)" "ordinary_price (Fin b)"
  shows "pct (Fin a) (Fin b) = Fin (a / b - 1)" and "moderate (a / b - 1)"
proof -
  have q: "\<bar>a / b\<bar> \<le> 2 ^ 40" and nz: "b \<noteq> 0"
    using assms by (rule ordinary_quotient)+
  have "(2::real) ^ 40 \<le> 2 ^ 1000" by (intro power_increasing) simp_all
  with q have "fl_round (a / b) = Fin (a / b)" by (intro fl_round_Fin) linarith
  then show "pct (Fin a) (Fin b) = Fin (a / b - 1)"
    using nz by (simp add: pct_def)
  have "\<bar>a / b - 1\<bar> \<le> \<bar>a / b\<bar> + 1" by linarith
  also have "\<dots> \<le> 2 ^ 40 + 1" using q by simp
  also have "\<dots> \<le> (2::real) ^ 40 + 2 ^ 40" by (intro add_left_mono) simp
  also have "\<dots> = (2::real) ^ 41" by simp
  also have "\<dots> \<le> (2::real) ^ 500" by (intro power_increasing) simp_all
  finally show "moderate (a / b - 1)" by (simp add: moderate_def)
qed

lemma ordinary_moderate: "ordinary_price (Fin a) \<Longrightarrow> moderate a"
proof -
  assume "ordinary_price (Fin a)"
  then have "\<bar>a\<bar> \<le> 2 ^ 20" by (simp add: ordinary_price_def)
  also have "(2::real) ^ 20 \<le> 2 ^ 500" by (intro power_increasing) simp_all
  finally show ?thesis by (simp add: moderate_def)
qed


lemma ordinary_between:
  assumes "1 \<le> x" "x \<le> 1000"
  shows "ordinary_price (Fin x)"
proof -
  have "(1::real) / 2 ^ 20 \<le> 1" by simp
  also have "1 \<le> \<bar>x\<bar>" using assms by simp
  finally have lo: "1 / 2 ^ 20 \<le> \<bar>x\<bar>" .
  have "\<bar>x\<bar> \<le> 2 ^ 10" using assms by simp
  also have "(2::real) ^ 10 \<le> 2 ^ 20" by (intro power_increasing) simp_all
  finally show ?thesis using lo by (simp add: ordinary_price_def)
qed


section \<open>Moving averages\<close>










section \<open>Cleaning\<close>

lemma read_sql_labels: "map fst (read_sql rows) = [0..<length rows]"
  by (simp add: read_sql_def)

lemma read_sql_label_unique:
  "(i, r) \<in> set (read_sql rows) \<Longrightarrow> (i, r') \<in> set (read_sql rows) \<Longrightarrow> r = r'"
  by (rule eq_key_imp_eq_value [of "read_sql rows"]) (simp_all add: read_sql_labels)

lemma clean_as_filter:
  "clean lib df =
     map (\<lambda>(i, r). (i, coerce_row lib r))
       (filter (\<lambda>(i, r). to_numeric lib (Adj_Close r) \<noteq> NaN) df)"
  by (induction df) (auto simp: clean_def dropna_adj_close_def coerce_row_def)

text \<open>
  Claim C8.  The cleaning step has no failing path (\<open>errors='coerce'\<close>), so it is a
  total function.  Its result is the rows whose adjusted close is not \<open>NaN\<close> after the
  coercion, in their order and under their labels.  A row whose adjusted close is
  \<open>NULL\<close>, or a text from which the parser reads no number, is not in the result.  A row
  whose adjusted close is a number is in the result with that number and with every
  other field as it was.  No row that reaches the feature computation has a null
  adjusted close.
\<close>

theorem cleaning_drops_non_numeric:
  fixes lib rows
  defines "df \<equiv> read_sql rows"
  shows "clean lib df =
           map (\<lambda>(i, r). (i, coerce_row lib r))
             (filter (\<lambda>(i, r). to_numeric lib (Adj_Close r) \<noteq> NaN) df) \<and>
         (\<forall>i r. (i, r) \<in> set df \<and>
                (Adj_Close r = Null \<or> (\<exists>s. Adj_Close r = Txt s \<and> parse_number lib s = NaN))
              \<longrightarrow> i \<notin> fst ` set (clean lib df)) \<and>
         (\<forall>i r x. (i, r) \<in> set df \<and> Adj_Close r = Num x
              \<longrightarrow> (i, \<lparr>Date = Date r, Adj_Close = Fin x, Close = Close r, High = High r,
                        Low = Low r, Open = Open r, Volume = Volume r, Company = Company r,
                        Ticker = Ticker r\<rparr>) \<in> set (clean lib df)) \<and>
         (\<forall>i r. (i, r) \<in> set (clean lib df) \<longrightarrow> Adj_Close r \<noteq> NaN) \<and>
         feature_frame lib rows = add_features lib (clean lib df)"
proof (intro conjI allI impI)
  show "clean lib df =
           map (\<lambda>(i, r). (i, coerce_row lib r))
             (filter (\<lambda>(i, r). to_numeric lib (Adj_Close r) \<noteq> NaN) df)"
    by (rule clean_as_filter)
next
  fix i r
  assume a: "(i, r) \<in> set df \<and>
                (Adj_Close r = Null \<or> (\<exists>s. Adj_Close r = Txt s \<and> parse_number lib s = NaN))"
  then have non: "to_numeric lib (Adj_Close r) = NaN"
    by (auto simp: to_numeric_def)
  show "i \<notin> fst ` set (clean lib df)"
  proof
    assume "i \<in> fst ` set (clean lib df)"
    then obtain r' where "(i, r') \<in> set df" "to_numeric lib (Adj_Close r') \<noteq> NaN"
      by (auto simp: clean_as_filter)
    moreover from this a have "r = r'"
      unfolding df_def by (blast intro: read_sql_label_unique)
    ultimately show False using non by simp
  qed
next
  fix i r x
  assume "(i, r) \<in> set df \<and> Adj_Close r = Num x"
  then have "(i, r) \<in> set (filter (\<lambda>(i, r). to_numeric lib (Adj_Close r) \<noteq> NaN) df)"
    and "coerce_row lib r = \<lparr>Date = Date r, Adj_Close = Fin x, Close = Close r, High = High r,
                        Low = Low r, Open = Open r, Volume = Volume r, Company = Company r,
                        Ticker = Ticker r\<rparr>"
    by (auto simp: to_numeric_def coerce_row_def)
  then show "(i, \<lparr>Date = Date r, Adj_Close = Fin x, Close = Close r, High = High r,
                        Low = Low r, Open = Open r, Volume = Volume r, Company = Company r,
                        Ticker = Ticker r\<rparr>) \<in> set (clean lib df)"
    unfolding clean_as_filter by force
next
  fix i r
  assume "(i, r) \<in> set (clean lib df)"
  then show "Adj_Close r \<noteq> NaN" by (rule clean_numeric)
next
  show "feature_frame lib rows = add_features lib (clean lib df)"
    by (simp add: feature_frame_def df_def)
qed

theorem cleaning_drops_non_numeric_witness:
  "map fst (clean no_parse (read_sql dirty4)) = [0, 3] \<and>
   map (\<lambda>(i, r). Adj_Close r) (clean no_parse (read_sql dirty4)) = [Fin 10, Fin 12]"
  using cleaning_drops_non_numeric [of no_parse dirty4]
  by (simp add: read_sql_def dirty4_def xom_row_def to_numeric_def no_parse_def coerce_row_def)

section \<open>Returns of a series\<close>

lemma ordinary_returns:
  assumes k: "k < length xs" and clean: "NaN \<notin> set xs"
    and ord: "\<And>j. j \<le> k \<Longrightarrow> xs ! j = Fin (p j) \<and> ordinary_price (Fin (p j))"
  shows "\<And>j. 0 < j \<Longrightarrow> j \<le> k \<Longrightarrow> pct_change xs ! j = Fin (p j / p (j - 1) - 1)"
    and "\<And>j x. j \<le> k \<Longrightarrow> pct_change xs ! j = Fin x \<Longrightarrow> moderate x"
proof -
  show r: "pct_change xs ! j = Fin (p j / p (j - 1) - 1)" if "0 < j" "j \<le> k" for j
  proof -
    have "pct_change xs ! j = pct (xs ! j) (xs ! (j - 1))"
      using that k clean by (simp add: pct_change_clean_nth)
    also have "\<dots> = pct (Fin (p j)) (Fin (p (j - 1)))"
      using ord [of j] ord [of "j - 1"] that by simp
    also have "\<dots> = Fin (p j / p (j - 1) - 1)"
      using ord [of j] ord [of "j - 1"] that by (intro ordinary_return) simp_all
    finally show ?thesis .
  qed
  show "moderate x" if "j \<le> k" "pct_change xs ! j = Fin x" for j x
  proof (cases "j = 0")
    case True
    have "0 < length xs" using k by auto
    then have "pct_change xs ! 0 = NaN" by (rule pct_change_nth_0)
    then show ?thesis using that True by simp
  next
    case False
    then have "x = p j / p (j - 1) - 1" using r [of j] that by simp
    then show ?thesis
      using ord [of j] ord [of "j - 1"] that by (simp add: ordinary_return(2))
  qed
qed


section \<open>Which rows survive\<close>

lemma raw_part_group:
  "raw_part (ticker_rows T (feature_frame lib rows)) = ticker_rows T (clean lib (read_sql rows))"
proof -
  let ?C = "ticker_rows T (clean lib (read_sql rows))"
  let ?S = "series_features lib (prices ?C)"
  have len: "length ?S = length ?C" by simp
  have "map (\<lambda>((i, r), d). (i, stock_row.truncate (with_features r d))) (zip ?C ?S)
      = map fst (zip ?C ?S)"
    by (intro map_cong) auto
  also have "\<dots> = ?C" using len by simp
  finally show ?thesis
    by (simp add: feature_group raw_part_def case_prod_unfold comp_def)
qed

lemma raw_part_filter:
  "raw_part (filter (\<lambda>(i, r). complete_raw r) df) = filter (\<lambda>(i, r). complete_raw r) (raw_part df)"
  by (induction df) (auto simp: raw_part_def complete_raw_def stock_row.defs)

lemma raw_part_drop: "raw_part (drop n df) = drop n (raw_part df)"
  by (simp add: raw_part_def drop_map)

lemma ticker_rows_dropna: "ticker_rows T (dropna F) = dropna (ticker_rows T F)"
  by (induction F) (auto simp: ticker_rows_def dropna_def)

lemma complete_derived_early:
  assumes "k < length (ticker_rows T (feature_frame lib rows))" "k < 13"
  shows "\<not> complete_derived (snd (ticker_rows T (feature_frame lib rows) ! k))"
proof -
  let ?G = "ticker_rows T (feature_frame lib rows)"
  have "k < length (prices ?G)" using assms by simp
  then have "rolling_mean lib 14 (prices ?G) ! k = NaN"
    using assms(2) by (intro rolling_mean_short) simp_all
  then have "MA_14day (snd (?G ! k)) = NaN"
    using assms(1) by (simp add: feature_fields)
  then show ?thesis by (simp add: complete_derived_def)
qed

lemma ordinary_prices_Fin:
  assumes "\<And>j. j \<le> k \<Longrightarrow> ordinary_price (xs ! j)"
  shows "\<exists>p. \<forall>j\<le>k. xs ! j = Fin (p j) \<and> ordinary_price (Fin (p j))"
proof -
  have "\<forall>j. \<exists>x. j \<le> k \<longrightarrow> xs ! j = Fin x \<and> ordinary_price (Fin x)"
  proof
    fix j
    show "\<exists>x. j \<le> k \<longrightarrow> xs ! j = Fin x \<and> ordinary_price (Fin x)"
      using assms [of j] by (cases "xs ! j") (auto simp: ordinary_price_def)
  qed
  then have "\<exists>p. \<forall>j. j \<le> k \<longrightarrow> xs ! j = Fin (p j) \<and> ordinary_price (Fin (p j))"
    by (rule choice)
  then show ?thesis by blast
qed

lemma complete_derived_late:
  assumes k: "k < length (ticker_rows T (feature_frame lib rows))" "13 \<le> k"
    and ord: "\<And>j. j \<le> k \<Longrightarrow> ordinary_price (prices (ticker_rows T (feature_frame lib rows)) ! j)"
  shows "complete_derived (snd (ticker_rows T (feature_frame lib rows) ! k))"
proof -
  let ?G = "ticker_rows T (feature_frame lib rows)"
  let ?p = "prices ?G"
  let ?rs = "pct_change ?p"
  from ordinary_prices_Fin [of k ?p] ord
  obtain p where "\<forall>j\<le>k. ?p ! j = Fin (p j) \<and> ordinary_price (Fin (p j))" by blast
  then have p: "?p ! j = Fin (p j) \<and> ordinary_price (Fin (p j))" if "j \<le> k" for j
    using that by blast
  have kp: "k < length ?p" using k by simp
  have krs: "k < length ?rs" using k by simp
  have clean: "NaN \<notin> set ?p" by (rule group_prices_clean)
  have pm: "?p ! j = Fin (p j) \<and> moderate (p j)" if "j \<le> k" for j
    using p [OF that] by (simp add: ordinary_moderate)
  have "rolling_mean lib 7 ?p ! k = (if Suc k < 7 then NaN else Fin ((\<Sum>j = Suc k - 7..k. p j) / real 7))"
    using kp pm by (intro rolling_mean_steady) simp_all
  then have m7: "MA_7day (snd (?G ! k)) \<noteq> NaN"
    using k by (simp add: feature_fields)
  have "rolling_mean lib 14 ?p ! k = (if Suc k < 14 then NaN else Fin ((\<Sum>j = Suc k - 14..k. p j) / real 14))"
    using kp pm by (intro rolling_mean_steady) simp_all
  then have m14: "MA_14day (snd (?G ! k)) \<noteq> NaN"
    using k by (simp add: feature_fields)
  have "shift 1 ?p ! k = Fin (p (k - 1))" "shift 2 ?p ! k = Fin (p (k - 2))"
    using kp k(2) p [of "k - 1"] p [of "k - 2"] by (simp_all add: shift_nth)
  then have lag: "Lag_1 (snd (?G ! k)) \<noteq> NaN" "Lag_2 (snd (?G ! k)) \<noteq> NaN"
    using k by (simp_all add: feature_fields)
  have r: "?rs ! j = Fin (p j / p (j - 1) - 1)" if "k - 6 \<le> j" "j \<le> k" for j
  proof -
    have "0 < j" using that k(2) by arith
    then show ?thesis using ordinary_returns(1) [OF kp clean p, of j] that by simp
  qed
  have m: "moderate x" if "j \<le> k" "?rs ! j = Fin x" for j x
    using ordinary_returns(2) [OF kp clean p, of j x] that by simp
  have dr: "Daily_Return (snd (?G ! k)) \<noteq> NaN"
    using k r [of k] by (simp add: feature_fields)
  have "rolling_std lib 7 ?rs ! k =
      Fin (sqrt ((\<Sum>j = k - 6..k. (p j / p (j - 1) - 1
            - (\<Sum>i = k - 6..k. p i / p (i - 1) - 1) / 7)\<^sup>2) / 6))"
    using krs k(2) r m
    by (intro rolling_std_steady [where p = "\<lambda>j. p j / p (j - 1) - 1"]) simp_all
  then have vol: "Volatility (snd (?G ! k)) \<noteq> NaN"
    using k by (simp add: feature_fields)
  from m7 m14 lag dr vol show ?thesis by (simp add: complete_derived_def)
qed

lemma in_set_drop_nth:
  assumes "x \<in> set (drop n xs)"
  obtains k where "n \<le> k" "k < length xs" "x = xs ! k"
proof -
  from assms obtain i where "i < length (drop n xs)" "x = drop n xs ! i"
    by (auto simp: in_set_conv_nth)
  then have "n \<le> n + i" "n + i < length xs" "x = xs ! (n + i)" by auto
  then show ?thesis by (rule that)
qed

lemma dropna_append: "dropna (xs @ ys) = dropna xs @ dropna ys"
  by (simp add: dropna_def)

text \<open>The first 13 rows of a ticker never survive.\<close>

lemma processed_group:
  "ticker_rows T (processed_data lib rows) = dropna (drop 13 (ticker_rows T (feature_frame lib rows)))"
proof -
  let ?G = "ticker_rows T (feature_frame lib rows)"
  have "\<not> complete_derived (snd x)" if "x \<in> set (take 13 ?G)" for x
  proof -
    from that obtain k where "k < length (take 13 ?G)" "x = take 13 ?G ! k"
      by (auto simp: in_set_conv_nth)
    then have "k < length ?G" "k < 13" "x = ?G ! k" by auto
    then show ?thesis using complete_derived_early by blast
  qed
  then have "dropna (take 13 ?G) = []"
    by (auto simp: dropna_def filter_empty_conv)
  moreover have "dropna ?G = dropna (take 13 ?G) @ dropna (drop 13 ?G)"
    by (simp flip: dropna_append)
  ultimately show ?thesis by (simp add: processed_data_def ticker_rows_dropna)
qed

text \<open>Among ordinary prices, the later rows survive unless a raw column is missing.\<close>

lemma processed_group_ordinary:
  assumes "list_all ordinary_price (prices (ticker_rows T (feature_frame lib rows)))"
  shows "ticker_rows T (processed_data lib rows) =
           filter (\<lambda>(i, r). complete_raw r) (drop 13 (ticker_rows T (feature_frame lib rows)))"
proof -
  let ?G = "ticker_rows T (feature_frame lib rows)"
  have "complete_derived (snd x)" if "x \<in> set (drop 13 ?G)" for x
  proof -
    from that obtain k where k: "13 \<le> k" "k < length ?G" "x = ?G ! k"
      by (rule in_set_drop_nth)
    have "ordinary_price (prices ?G ! j)" if "j \<le> k" for j
      using assms that k(2) by (simp add: list_all_length)
    then show ?thesis using k complete_derived_late by blast
  qed
  then have "dropna (drop 13 ?G) = filter (\<lambda>(i, r). complete_raw r) (drop 13 ?G)"
    unfolding dropna_def by (intro filter_cong) auto
  then show ?thesis by (simp add: processed_group)
qed

lemma processed_group_raw:
  assumes "list_all ordinary_price (prices (ticker_rows T (clean lib (read_sql rows))))"
  shows "raw_part (ticker_rows T (processed_data lib rows)) =
           filter (\<lambda>(i, r). complete_raw r) (drop 13 (ticker_rows T (clean lib (read_sql rows))))"
  using assms
  by (simp add: processed_group_ordinary feature_group_prices(1) raw_part_filter raw_part_drop
      raw_part_group)

section \<open>Tables of one ticker\<close>

lemma ticker_rows_all:
  "(\<And>i r. (i, r) \<in> set df \<Longrightarrow> Ticker r = Some T) \<Longrightarrow> ticker_rows T df = df"
  unfolding ticker_rows_def by (intro filter_True) auto

lemma Ticker_coerce_row [simp]: "Ticker (coerce_row lib r) = Ticker r"
  by (simp add: coerce_row_def)

lemma ticker_rows_clean: "ticker_rows T (clean lib df) = clean lib (ticker_rows T df)"
  by (induction df) (auto simp: ticker_rows_def clean_def dropna_adj_close_def)

lemma clean_all_numeric:
  assumes "\<And>i r. (i, r) \<in> set df \<Longrightarrow> to_numeric lib (Adj_Close r) \<noteq> NaN"
  shows "clean lib df = map (\<lambda>(i, r). (i, coerce_row lib r)) df"
proof -
  have "filter (\<lambda>(i, r). to_numeric lib (Adj_Close r) \<noteq> NaN) df = df"
    using assms by (intro filter_True) auto
  then show ?thesis by (simp add: clean_as_filter)
qed

lemma prices_coerced:
  "prices (map (\<lambda>(i, r). (i, coerce_row lib r)) df)
     = map (\<lambda>(i, r). to_numeric lib (Adj_Close r)) df"
  by (simp add: prices_def coerce_row_def case_prod_unfold comp_def)

lemma feature_frame_ticker:
  assumes "(i, r) \<in> set (feature_frame lib rows)"
  shows "\<exists>r'\<in>set rows. Ticker r = Ticker r'"
proof -
  have "Ticker r \<in> set (map (\<lambda>(i, r). Ticker r) (feature_frame lib rows))"
    using assms by force
  also have "map (\<lambda>(i, r). Ticker r) (feature_frame lib rows)
      = map (\<lambda>(i, r). Ticker r) (clean lib (read_sql rows))"
    by (simp add: feature_frame_def keys_add_features)
  finally obtain j r'' where "(j, r'') \<in> set (clean lib (read_sql rows))" "Ticker r = Ticker r''"
    by auto
  then obtain r' where "(j, r') \<in> set (read_sql rows)" "Ticker r = Ticker r'"
    by (auto simp: clean_as_filter)
  then show ?thesis by (auto simp: read_sql_def dest: set_zip_rightD)
qed

lemma processed_subset: "set (processed_data lib rows) \<subseteq> set (feature_frame lib rows)"
  by (auto simp: processed_data_def dropna_def)

lemma single_ticker_processed:
  assumes "\<And>r. r \<in> set rows \<Longrightarrow> Ticker r = Some T"
  shows "ticker_rows T (processed_data lib rows) = processed_data lib rows"
    and "ticker_rows T (feature_frame lib rows) = feature_frame lib rows"
    and "ticker_rows T (read_sql rows) = read_sql rows"
proof -
  have F: "Ticker r = Some T" if "(i, r) \<in> set (feature_frame lib rows)" for i r
    using feature_frame_ticker [OF that] assms by auto
  then show "ticker_rows T (feature_frame lib rows) = feature_frame lib rows"
    by (intro ticker_rows_all)
  show "ticker_rows T (processed_data lib rows) = processed_data lib rows"
    using F processed_subset [of lib rows] by (intro ticker_rows_all) blast
  show "ticker_rows T (read_sql rows) = read_sql rows"
    using assms by (intro ticker_rows_all) (auto simp: read_sql_def dest: set_zip_rightD)
qed

lemma map_fst_raw_part [simp]: "map fst (raw_part df) = map fst df"
  by (simp add: raw_part_def case_prod_unfold comp_def)

lemma complete_raw_coerce:
  "complete_raw (coerce_row lib r) \<longleftrightarrow>
     other_columns_present r \<and> to_numeric lib (Adj_Close r) \<noteq> NaN"
  by (auto simp: complete_raw_def other_columns_present_def coerce_row_def)

lemma ordinary_not_NaN: "ordinary_price v \<Longrightarrow> v \<noteq> NaN"
  by (auto simp: ordinary_price_def)

text \<open>
  A ticker whose stored rows all have an ordinary price as adjusted close and no
  missing column loses exactly its first 13 rows.
\<close>

lemma processed_group_drop13:
  fixes lib rows T
  defines "R \<equiv> ticker_rows T (read_sql rows)"
  assumes ok: "\<And>i r. (i, r) \<in> set R \<Longrightarrow>
      other_columns_present r \<and> ordinary_price (to_numeric lib (Adj_Close r))"
  shows "raw_part (ticker_rows T (processed_data lib rows)) =
           drop 13 (map (\<lambda>(i, r). (i, coerce_row lib r)) R)"
proof -
  let ?C = "ticker_rows T (clean lib (read_sql rows))"
  have num: "to_numeric lib (Adj_Close r) \<noteq> NaN" if "(i, r) \<in> set R" for i r
    using ok [OF that] by (simp add: ordinary_not_NaN)
  have C: "?C = map (\<lambda>(i, r). (i, coerce_row lib r)) R"
    unfolding R_def ticker_rows_clean using num unfolding R_def
    by (intro clean_all_numeric) blast
  have "prices ?C = map (\<lambda>(i, r). to_numeric lib (Adj_Close r)) R"
    unfolding C by (rule prices_coerced)
  then have ord: "list_all ordinary_price (prices ?C)"
    using ok by (auto simp: list_all_iff)
  have "complete_raw r" if "(i, r) \<in> set ?C" for i r
    using that ok num unfolding C by (auto simp: complete_raw_coerce)
  then have "filter (\<lambda>(i, r). complete_raw r) (drop 13 ?C) = drop 13 ?C"
    by (intro filter_True) (auto dest: List.in_set_dropD)
  then show ?thesis
    using processed_group_raw [OF ord] by (simp add: C)
qed

section \<open>The cutoff\<close>

text \<open>
  Claim C2.  For a table of one ticker with the adjusted closes \<open>10, 11, ..., 24\<close> on
  the days \<open>1, ..., 15\<close> and no missing raw field, the labels of the processed rows are
  exactly \<open>13\<close> and \<open>14\<close>: no row before the 0-based index 13 is in the output and the
  first retained row is the one with index 13.
\<close>

theorem xom_cutoff_is_index_13:
  assumes adj: "map Adj_Close rows =
      map Num [10, 11, 12, 13, 14, 15, 16, 17, 18, 19, 20, 21, 22, 23, 24]"
    and dates: "map Date rows = map Some [1, 2, 3, 4, 5, 6, 7, 8, 9, 10, 11, 12, 13, 14, 15]"
    and rest: "\<forall>r\<in>set rows. Ticker r = Some T \<and> other_columns_present r"
  shows "map fst (processed_data lib rows) = [13, 14]"
proof -
  have len: "length rows = 15"
    using arg_cong [OF adj, of length] by simp
  have num: "\<exists>x. Adj_Close r = Num x \<and> 1 \<le> x \<and> x \<le> 1000" if "r \<in> set rows" for r
  proof -
    from that have "Adj_Close r \<in> set (map Adj_Close rows)" by simp
    then show ?thesis unfolding adj by auto
  qed
  have single: "ticker_rows T (processed_data lib rows) = processed_data lib rows"
    "ticker_rows T (read_sql rows) = read_sql rows"
    using rest by (auto intro!: single_ticker_processed)
  have "raw_part (ticker_rows T (processed_data lib rows)) =
           drop 13 (map (\<lambda>(i, r). (i, coerce_row lib r)) (ticker_rows T (read_sql rows)))"
  proof (rule processed_group_drop13)
    fix i r
    assume "(i, r) \<in> set (ticker_rows T (read_sql rows))"
    then have r: "r \<in> set rows"
      unfolding single by (auto simp: read_sql_def dest: set_zip_rightD)
    from num [OF r] obtain x where "Adj_Close r = Num x" "1 \<le> x" "x \<le> 1000" by blast
    then have "ordinary_price (to_numeric lib (Adj_Close r))"
      by (simp add: to_numeric_def ordinary_between)
    then show "other_columns_present r \<and> ordinary_price (to_numeric lib (Adj_Close r))"
      using rest r by blast
  qed
  then have "map fst (raw_part (processed_data lib rows))
      = map fst (drop 13 (map (\<lambda>(i, r). (i, coerce_row lib r)) (read_sql rows)))"
    unfolding single by simp
  also have "\<dots> = drop 13 (map fst (read_sql rows))"
    by (simp add: drop_map case_prod_unfold comp_def)
  also have "\<dots> = drop 13 [0..<15]"
    by (simp add: read_sql_labels len)
  also have "\<dots> = [13, 14]"
    by (simp add: upt_rec)
  finally show ?thesis by simp
qed

lemma xom15_columns:
  "map Adj_Close xom15 = map Num [10, 11, 12, 13, 14, 15, 16, 17, 18, 19, 20, 21, 22, 23, 24]"
  "map Date xom15 = map Some [1, 2, 3, 4, 5, 6, 7, 8, 9, 10, 11, 12, 13, 14, 15]"
  "\<forall>r\<in>set xom15. Ticker r = Some ''XOM'' \<and> other_columns_present r"
  by (simp_all add: xom15_def xom_row_def other_columns_present_def)

theorem xom_cutoff_is_index_13_witness:
  "map fst (processed_data no_parse xom15) = [13, 14]"
  using xom_cutoff_is_index_13 [of xom15 "''XOM''" no_parse]
  by (simp add: xom15_columns)

section \<open>Excluded rows\<close>

lemma gap16_rows:
  "\<forall>r\<in>set gap16. Ticker r = Some ''XOM''"
  "\<forall>r\<in>set gap16. to_numeric no_parse (Adj_Close r) \<noteq> NaN"
  by (simp_all add: gap16_def xom_row_def to_numeric_def)

lemma gap16_clean:
  "clean no_parse (read_sql gap16) = map (\<lambda>(i, r). (i, coerce_row no_parse r)) (read_sql gap16)"
  using gap16_rows(2)
  by (intro clean_all_numeric) (auto simp: read_sql_def dest: set_zip_rightD)

lemma gap16_prices:
  "prices (clean no_parse (read_sql gap16)) =
     map Fin [10, 11, 12, 13, 14, 15, 16, 17, 18, 19, 20, 21, 22, 23, 24, 25]"
  unfolding gap16_clean prices_coerced
  by (simp add: read_sql_def gap16_def xom_row_def to_numeric_def)

lemma gap16_single:
  "ticker_rows ''XOM'' (processed_data no_parse gap16) = processed_data no_parse gap16"
  "ticker_rows ''XOM'' (feature_frame no_parse gap16) = feature_frame no_parse gap16"
  "ticker_rows ''XOM'' (clean no_parse (read_sql gap16)) = clean no_parse (read_sql gap16)"
proof -
  have t: "\<And>r. r \<in> set gap16 \<Longrightarrow> Ticker r = Some ''XOM''"
    using gap16_rows(1) by blast
  show "ticker_rows ''XOM'' (processed_data no_parse gap16) = processed_data no_parse gap16"
    using t by (rule single_ticker_processed)
  show "ticker_rows ''XOM'' (feature_frame no_parse gap16) = feature_frame no_parse gap16"
    using t by (rule single_ticker_processed)
  show "ticker_rows ''XOM'' (clean no_parse (read_sql gap16)) = clean no_parse (read_sql gap16)"
    unfolding ticker_rows_clean using t by (simp add: single_ticker_processed(3))
qed

lemma gap16_ordinary:
  "list_all ordinary_price (prices (ticker_rows ''XOM'' (clean no_parse (read_sql gap16))))"
  by (simp add: gap16_single gap16_prices ordinary_between)

lemma gap16_tail:
  "map (\<lambda>(i, r). (i, complete_raw r)) (drop 13 (clean no_parse (read_sql gap16)))
     = [(13, True), (14, False), (15, True)]"
  unfolding gap16_clean
  by (simp add: read_sql_def gap16_def xom_row_def to_numeric_def complete_raw_def coerce_row_def
      upt_rec)

lemma gap16_labels:
  "map fst (processed_data no_parse gap16) = [13, 15]"
proof -
  have "map fst (filter (\<lambda>(i, r). complete_raw r) df) = map fst (filter snd (map (\<lambda>(i, r). (i, complete_raw r)) df))"
    for df :: "num_row frame"
    by (induction df) auto
  then have "map fst (filter (\<lambda>(i, r). complete_raw r) (drop 13 (clean no_parse (read_sql gap16))))
      = [13, 15]"
    by (simp add: gap16_tail)
  moreover have "map fst (raw_part (processed_data no_parse gap16))
      = map fst (filter (\<lambda>(i, r). complete_raw r) (drop 13 (clean no_parse (read_sql gap16))))"
    using processed_group_raw [OF gap16_ordinary] by (simp only: gap16_single)
  ultimately show ?thesis by (simp only: map_fst_raw_part)
qed

lemma gap16_row14:
  "fst (feature_frame no_parse gap16 ! 14) = 14"
  "complete_derived (snd (feature_frame no_parse gap16 ! 14))"
proof -
  let ?G = "ticker_rows ''XOM'' (feature_frame no_parse gap16)"
  let ?C = "clean no_parse (read_sql gap16)"
  have pp: "prices ?G = prices (ticker_rows ''XOM'' ?C)"
    by (rule feature_group_prices(1))
  then have p: "prices ?G = map Fin [10, 11, 12, 13, 14, 15, 16, 17, 18, 19, 20, 21, 22, 23, 24, 25]"
    by (simp only: gap16_single(3) gap16_prices)
  have "length (prices ?G) = 16" by (simp only: p) simp
  then have len: "length ?G = 16" by simp
  then have k: "14 < length ?G" by simp
  have "length ?G = length (ticker_rows ''XOM'' ?C)"
    by (rule feature_group_prices(2))
  then have lenC: "length ?C = 16"
    using len by (simp only: gap16_single(3))
  have labels: "map fst ?C = [0..<16]"
  proof -
    have "map fst ?C = map fst (read_sql gap16)"
      unfolding gap16_clean by (simp add: case_prod_unfold comp_def)
    moreover have "length gap16 = 16" by (simp add: gap16_def)
    ultimately show ?thesis by (simp only: read_sql_labels)
  qed
  have "fst (?C ! 14) = map fst ?C ! 14"
    by (rule nth_map [symmetric]) (simp add: lenC)
  also have "\<dots> = 14" unfolding labels by simp
  finally have "fst (?G ! 14) = 14"
    using feature_group_nth(2) [OF k] by (simp add: gap16_single)
  then show "fst (feature_frame no_parse gap16 ! 14) = 14"
    by (simp add: gap16_single)
  have ord: "list_all ordinary_price (prices ?G)"
    using gap16_ordinary by (simp only: pp)
  have "ordinary_price (prices ?G ! j)" if "j \<le> 14" for j
    using ord that len by (simp add: list_all_length)
  then have "complete_derived (snd (?G ! 14))"
    using k by (intro complete_derived_late) simp_all
  then show "complete_derived (snd (feature_frame no_parse gap16 ! 14))"
    by (simp add: gap16_single)
qed

text \<open>
  Claim C3 fails as stated.  In the table \<open>gap16\<close> the row with the label 14 has every
  derived field defined and is excluded all the same, because its volume is missing;
  the emitted rows, with the labels 13 and 15, are not a suffix of the ticker's rows.
\<close>

theorem excluded_iff_derived_undefined_counterexample:
  "fst (feature_frame no_parse gap16 ! 14) = 14 \<and>
   complete_derived (snd (feature_frame no_parse gap16 ! 14)) \<and>
   14 \<notin> set (map fst (processed_data no_parse gap16)) \<and>
   map fst (processed_data no_parse gap16) = [13, 15]"
  by (simp add: gap16_row14 gap16_labels)

text \<open>
  Claim C3, amended.  \<open>dropna\<close> looks at every column: a row of the frame is excluded
  exactly when one of its columns, raw or derived, is \<open>NaN\<close> or missing; an infinity
  in a derived column excludes no row.  The first 13 rows of every ticker are always
  excluded.  For a ticker whose stored rows all have an adjusted close that is a
  finite number between \<open>2^-20\<close> and \<open>2^20\<close> in magnitude, so that no return and no
  running sum leaves the range of a double, and no missing raw column, the emitted
  rows are exactly the ticker's stored rows after the first 13, in stored order, which
  is a strict suffix of them.
\<close>

theorem dropna_excludes_incomplete_rows:
  fixes lib rows T
  defines "F \<equiv> feature_frame lib rows"
  defines "P \<equiv> processed_data lib rows"
  defines "R \<equiv> ticker_rows T (read_sql rows)"
  shows "(\<forall>i r. (i, r) \<in> set P \<longleftrightarrow> (i, r) \<in> set F \<and> complete_raw r \<and> complete_derived r) \<and>
         ticker_rows T P = dropna (drop 13 (ticker_rows T F)) \<and>
         ((\<forall>(i, r)\<in>set R. other_columns_present r \<and>
              ordinary_price (to_numeric lib (Adj_Close r))) \<longrightarrow>
            raw_part (ticker_rows T P) = drop 13 (map (\<lambda>(i, r). (i, coerce_row lib r)) R) \<and>
            (R \<noteq> [] \<longrightarrow> length (ticker_rows T P) < length R))"
proof (intro conjI allI impI)
  fix i r
  show "(i, r) \<in> set P \<longleftrightarrow> (i, r) \<in> set F \<and> complete_raw r \<and> complete_derived r"
    by (auto simp: P_def F_def processed_data_def dropna_def)
next
  show "ticker_rows T P = dropna (drop 13 (ticker_rows T F))"
    unfolding P_def F_def by (rule processed_group)
next
  assume ok: "\<forall>(i, r)\<in>set R. other_columns_present r \<and>
              ordinary_price (to_numeric lib (Adj_Close r))"
  show eq: "raw_part (ticker_rows T P) = drop 13 (map (\<lambda>(i, r). (i, coerce_row lib r)) R)"
    unfolding P_def R_def using ok unfolding R_def
    by (intro processed_group_drop13) blast
  assume "R \<noteq> []"
  then have "length (drop 13 (map (\<lambda>(i, r). (i, coerce_row lib r)) R)) < length R"
    by (cases R) auto
  then show "length (ticker_rows T P) < length R"
    using arg_cong [OF eq, of length] by (simp add: raw_part_def)
qed

theorem dropna_excludes_incomplete_rows_witness:
  "map fst (raw_part (ticker_rows ''XOM'' (processed_data no_parse xom15))) = [13, 14] \<and>
   length (ticker_rows ''XOM'' (processed_data no_parse xom15)) < 15"
proof -
  have R: "ticker_rows ''XOM'' (read_sql xom15) = read_sql xom15"
    using xom15_columns(3) by (intro single_ticker_processed) blast
  have ok: "\<forall>(i, r)\<in>set (read_sql xom15). other_columns_present r \<and>
      ordinary_price (to_numeric no_parse (Adj_Close r))"
    by (simp add: read_sql_def xom15_def xom_row_def other_columns_present_def to_numeric_def
        ordinary_between)
  have "map fst (drop 13 (map (\<lambda>(i, r). (i, coerce_row no_parse r)) (read_sql xom15))) = [13, 14]"
    by (simp add: read_sql_def xom15_def upt_rec)
  moreover have "length (read_sql xom15) = 15"
    by (simp add: read_sql_def xom15_def)
  moreover have "raw_part (ticker_rows ''XOM'' (processed_data no_parse xom15)) =
      drop 13 (map (\<lambda>(i, r). (i, coerce_row no_parse r)) (ticker_rows ''XOM'' (read_sql xom15))) \<and>
      (ticker_rows ''XOM'' (read_sql xom15) \<noteq> [] \<longrightarrow>
        length (ticker_rows ''XOM'' (processed_data no_parse xom15))
          < length (ticker_rows ''XOM'' (read_sql xom15)))"
    using dropna_excludes_incomplete_rows [of no_parse xom15 "''XOM''"] ok
    unfolding R by blast
  ultimately show ?thesis
    by (auto simp add: R simp del: map_fst_raw_part)
qed

section \<open>An overflowing return\<close>

lemma ovf16_rows:
  "\<forall>r\<in>set ovf16. Ticker r = Some ''XOM''"
  "\<forall>r\<in>set ovf16. to_numeric lib (Adj_Close r) \<noteq> NaN"
  by (simp_all add: ovf16_def xom_row_def to_numeric_def numeral_eq_Suc)

lemma ovf16_prices:
  "prices (ticker_rows ''XOM'' (feature_frame lib ovf16)) =
     map Fin (replicate 12 (1 / 2 ^ 520) @ replicate 4 (2 ^ 520))"
proof -
  have c: "clean lib (read_sql ovf16) = map (\<lambda>(i, r). (i, coerce_row lib r)) (read_sql ovf16)"
    using ovf16_rows(2)
    by (intro clean_all_numeric) (auto simp: read_sql_def dest: set_zip_rightD)
  have t: "\<And>r. r \<in> set ovf16 \<Longrightarrow> Ticker r = Some ''XOM''"
    using ovf16_rows(1) by blast
  have "ticker_rows ''XOM'' (clean lib (read_sql ovf16)) = clean lib (read_sql ovf16)"
    unfolding ticker_rows_clean using t by (simp add: single_ticker_processed(3))
  then have "prices (ticker_rows ''XOM'' (clean lib (read_sql ovf16))) =
      map (\<lambda>(i, r). to_numeric lib (Adj_Close r)) (read_sql ovf16)"
    by (simp only: c prices_coerced)
  also have "\<dots> = map Fin (replicate 12 (1 / 2 ^ 520) @ replicate 4 (2 ^ 520))"
    by (simp add: read_sql_def ovf16_def xom_row_def to_numeric_def numeral_eq_Suc)
  finally show ?thesis by (simp only: feature_group_prices(1))
qed

lemma ovf16_group:
  "length (ticker_rows ''XOM'' (feature_frame lib ovf16)) = 16"
  "Adj_Close (snd (ticker_rows ''XOM'' (feature_frame lib ovf16) ! 12)) = Fin (2 ^ 520)"
  "Adj_Close (snd (ticker_rows ''XOM'' (feature_frame lib ovf16) ! 11)) = Fin (1 / 2 ^ 520)"
proof -
  let ?G = "ticker_rows ''XOM'' (feature_frame lib ovf16)"
  show len: "length ?G = 16"
    using arg_cong [OF ovf16_prices [of lib], of length] by simp
  have "prices ?G ! 12 = Fin (2 ^ 520)" "prices ?G ! 11 = Fin (1 / 2 ^ 520)"
    by (simp_all add: ovf16_prices numeral_eq_Suc)
  then show "Adj_Close (snd (?G ! 12)) = Fin (2 ^ 520)"
    and "Adj_Close (snd (?G ! 11)) = Fin (1 / 2 ^ 520)"
    using len by (simp_all add: prices_nth)
qed

lemma ovf16_return: "pct (Fin (2 ^ 520)) (Fin (1 / 2 ^ 520)) = PInf"
proof -
  have "(2::real) ^ 520 / (1 / 2 ^ 520) = 2 ^ 520 * 2 ^ 520" by simp
  also have "\<dots> = (2::real) ^ 1040" by (simp flip: power_add)
  finally have q: "(2::real) ^ 520 / (1 / 2 ^ 520) = 2 ^ 1040" .
  have "overflow_threshold \<le> 2 ^ 1024" by (simp add: overflow_threshold_def)
  also have "(2::real) ^ 1024 \<le> 2 ^ 1040" by (intro power_increasing) simp_all
  finally have "fl_round (2 ^ 1040) = PInf" by (simp add: fl_round_def)
  then show ?thesis by (simp add: pct_def q)
qed

text \<open>
  In \<open>ovf16\<close> every adjusted close is a number other than zero and no raw column is
  missing.  The return of the thirteenth row is infinite, the rolling deviation takes
  it for a missing value, and no row is emitted, whatever pandas does with its running
  sums.
\<close>

lemma ovf16_nothing:
  "Daily_Return (snd (ticker_rows ''XOM'' (feature_frame lib ovf16) ! 12)) = PInf"
  "processed_data lib ovf16 = []"
proof -
  let ?G = "ticker_rows ''XOM'' (feature_frame lib ovf16)"
  let ?rs = "pct_change (prices ?G)"
  have len: "length ?G = 16" by (rule ovf16_group)
  have p: "prices ?G ! 12 = Fin (2 ^ 520)" "prices ?G ! 11 = Fin (1 / 2 ^ 520)"
    using len by (simp_all add: prices_nth ovf16_group)
  have "?rs ! 12 = pct (prices ?G ! 12) (prices ?G ! 11)"
    using group_returns_nth [of 12 "''XOM''" lib ovf16] len by simp
  also have "\<dots> = PInf" by (simp only: p ovf16_return)
  finally have r12: "?rs ! 12 = PInf" .
  then show "Daily_Return (snd (?G ! 12)) = PInf"
    using len by (simp add: feature_fields)
  have "\<not> complete_derived (snd x)" if "x \<in> set (drop 13 ?G)" for x
  proof -
    from that obtain k where k: "13 \<le> k" "k < length ?G" "x = ?G ! k"
      by (rule in_set_drop_nth)
    have "rolling_std lib 7 ?rs ! k = NaN"
      using k len r12 by (intro rolling_std_gap [where j = 12]) simp_all
    then have "Volatility (snd (?G ! k)) = NaN"
      using k by (simp add: feature_fields)
    then show ?thesis using k by (simp add: complete_derived_def)
  qed
  then have "dropna (drop 13 ?G) = []"
    by (auto simp: dropna_def filter_empty_conv)
  then have "ticker_rows ''XOM'' (processed_data lib ovf16) = []"
    by (simp only: processed_group)
  moreover have "ticker_rows ''XOM'' (processed_data lib ovf16) = processed_data lib ovf16"
    using ovf16_rows(1) by (intro single_ticker_processed) blast
  ultimately show "processed_data lib ovf16 = []" by simp
qed

section \<open>Daily return and volatility\<close>




section \<open>No leakage between tickers\<close>

lemma map_snd_filter_snd:
  "map snd (filter (\<lambda>(i, r). P r) df) = filter P (map snd df)"
  by (induction df) auto

lemma map_snd_read_sql [simp]: "map snd (read_sql rows) = rows"
  by (simp add: read_sql_def)

lemma rows_of_clean_group:
  "map snd (ticker_rows T (clean lib (read_sql rows))) =
     map (coerce_row lib)
       (filter (\<lambda>r. to_numeric lib (Adj_Close r) \<noteq> NaN) (filter (\<lambda>r. Ticker r = Some T) rows))"
proof -
  have "map snd (ticker_rows T (clean lib (read_sql rows)))
      = map snd (clean lib (ticker_rows T (read_sql rows)))"
    by (simp only: ticker_rows_clean)
  also have "\<dots> = map (coerce_row lib)
      (map snd (filter (\<lambda>(i, r). to_numeric lib (Adj_Close r) \<noteq> NaN) (ticker_rows T (read_sql rows))))"
    by (simp add: clean_as_filter case_prod_unfold comp_def)
  also have "map snd (filter (\<lambda>(i, r). to_numeric lib (Adj_Close r) \<noteq> NaN) (ticker_rows T (read_sql rows)))
      = filter (\<lambda>r. to_numeric lib (Adj_Close r) \<noteq> NaN) (map snd (ticker_rows T (read_sql rows)))"
    by (rule map_snd_filter_snd)
  also have "map snd (ticker_rows T (read_sql rows)) = filter (\<lambda>r. Ticker r = Some T) rows"
    unfolding ticker_rows_def by (simp add: map_snd_filter_snd)
  finally show ?thesis .
qed

lemma rows_of_feature_group:
  "map snd (ticker_rows T (add_features lib df)) =
     map (\<lambda>(r, d). with_features r d)
       (zip (map snd (ticker_rows T df)) (series_features lib (map Adj_Close (map snd (ticker_rows T df)))))"
  by (simp add: ticker_rows_add_features zip_map1 case_prod_unfold comp_def)

lemma rows_of_dropna:
  "map snd (dropna df) = filter (\<lambda>r. complete_raw r \<and> complete_derived r) (map snd df)"
  unfolding dropna_def by (rule map_snd_filter_snd)

text \<open>
  Claim C4.  If two raw tables hold the same rows for the ticker \<open>T\<close>, in the same
  order, then the rows of \<open>T\<close> carry the same derived fields (and the same raw fields)
  in both feature frames, and the same rows of \<open>T\<close> are emitted: what the other tickers
  hold, and where their rows are stored among the rows of \<open>T\<close>, has no influence.
\<close>

theorem no_cross_ticker_leakage:
  assumes "filter (\<lambda>r. Ticker r = Some T) rows1 = filter (\<lambda>r. Ticker r = Some T) rows2"
  shows "map snd (ticker_rows T (feature_frame lib rows1)) =
           map snd (ticker_rows T (feature_frame lib rows2)) \<and>
         map snd (ticker_rows T (processed_data lib rows1)) =
           map snd (ticker_rows T (processed_data lib rows2))"
proof -
  have "map snd (ticker_rows T (clean lib (read_sql rows1))) =
        map snd (ticker_rows T (clean lib (read_sql rows2)))"
    using assms by (simp only: rows_of_clean_group)
  then have F: "map snd (ticker_rows T (feature_frame lib rows1)) =
           map snd (ticker_rows T (feature_frame lib rows2))"
    by (simp only: feature_frame_def rows_of_feature_group)
  then have "map snd (ticker_rows T (processed_data lib rows1)) =
           map snd (ticker_rows T (processed_data lib rows2))"
    by (simp only: processed_data_def ticker_rows_dropna rows_of_dropna)
  with F show ?thesis by simp
qed

lemma mixed17_xom:
  "filter (\<lambda>r. Ticker r = Some ''XOM'') mixed17 = filter (\<lambda>r. Ticker r = Some ''XOM'') xom15"
  by (simp add: mixed17_def cvx_row_def xom15_def xom_row_def)

theorem no_cross_ticker_leakage_witness:
  "map snd (ticker_rows ''XOM'' (feature_frame no_parse mixed17)) =
     map snd (ticker_rows ''XOM'' (feature_frame no_parse xom15)) \<and>
   map snd (ticker_rows ''XOM'' (processed_data no_parse mixed17)) =
     map snd (ticker_rows ''XOM'' (processed_data no_parse xom15))"
  using no_cross_ticker_leakage [OF mixed17_xom] by simp

section \<open>Re-running the feature engine\<close>

text \<open>
  Claim C7.  The processed table after a run is a function of the raw table alone:
  two databases with the same raw table have the same processed table after the run,
  whatever \<open>processed_stocks\<close> held before (full replace, nothing merged).  The run
  leaves the raw table as it is, so a second run writes the same table again.
\<close>

theorem feature_engine_full_replace:
  assumes "stocks db1 = stocks db2"
  shows "processed_stocks (preprocessing_notebook lib db1) =
           processed_stocks (preprocessing_notebook lib db2) \<and>
         processed_stocks (preprocessing_notebook lib db1) =
           Some (map snd (processed_data lib (stocks db1))) \<and>
         stocks (preprocessing_notebook lib db1) = stocks db1 \<and>
         preprocessing_notebook lib (preprocessing_notebook lib db1) =
           preprocessing_notebook lib db1"
  using assms by (simp add: preprocessing_notebook_def to_sql_replace_def)

theorem feature_engine_full_replace_witness:
  "processed_stocks (preprocessing_notebook no_parse fresh_db) =
     processed_stocks (preprocessing_notebook no_parse stale_db) \<and>
   preprocessing_notebook no_parse (preprocessing_notebook no_parse stale_db) =
     preprocessing_notebook no_parse stale_db"
proof -
  have "stocks stale_db = stocks fresh_db" by (simp add: fresh_db_def stale_db_def)
  from feature_engine_full_replace [OF this, of no_parse]
    feature_engine_full_replace [OF refl, of no_parse stale_db]
  show ?thesis by simp
qed

section \<open>The fetch batch\<close>

lemma fetch_and_store_data_stocks:
  "stocks (db (fetch_and_store_data env t c w)) =
     stocks (db w) @
       (case download env t of
          Inl e \<Rightarrow> []
        | Inr rows \<Rightarrow> (case write_error env t of Some e \<Rightarrow> [] | None \<Rightarrow> map (tag_row c t) rows))"
  by (simp add: fetch_and_store_data_def try_body_def to_sql_append_def
      split: sum.splits option.splits exn.splits)

lemma fetch_and_store_data_printed:
  "length (printed (fetch_and_store_data env t c w)) = Suc (length (printed w))"
  by (simp add: fetch_and_store_data_def split: sum.splits exn.splits)

lemma fetch_all_stocks:
  "stocks (db (fetch_all env ss w)) =
     stocks (db w) @
       concat (map (\<lambda>(t, c). case download env t of
          Inl e \<Rightarrow> []
        | Inr rows \<Rightarrow> (case write_error env t of Some e \<Rightarrow> [] | None \<Rightarrow> map (tag_row c t) rows)) ss)"
  by (induction env ss w rule: fetch_all.induct) (simp_all add: fetch_and_store_data_stocks)

lemma fetch_all_printed:
  "length (printed (fetch_all env ss w)) = length (printed w) + length ss"
  by (induction env ss w rule: fetch_all.induct) (simp_all add: fetch_and_store_data_printed)

text \<open>
  Claim C9.  A call of \<open>fetch_and_store_data\<close> whose download or write raises returns
  normally: it prints the error line and leaves the database as it was.  The batch
  therefore reaches every ticker of the list: one line is printed per ticker, and the
  raw table ends up extended by the rows of every ticker whose download and write went
  through, in the order of the list, wherever the failing tickers stand in it.
\<close>

theorem batch_survives_failures:
  "(\<forall>t c e. try_body env t c (db w) = Inl (Exception e) \<longrightarrow>
      fetch_and_store_data env t c w =
        w\<lparr>printed := printed w @ [''An error occurred while fetching data for '' @ t @ '': '' @ e]\<rparr>) \<and>
   length (printed (fetch_all env ss w)) = length (printed w) + length ss \<and>
   stocks (db (fetch_all env ss w)) =
     stocks (db w) @
       concat (map (\<lambda>(t, c). case download env t of
          Inl e \<Rightarrow> []
        | Inr rows \<Rightarrow> (case write_error env t of Some e \<Rightarrow> [] | None \<Rightarrow> map (tag_row c t) rows)) ss) \<and>
   (\<forall>t c rows. (t, c) \<in> set ss \<and> download env t = Inr rows \<and> write_error env t = None \<longrightarrow>
      set (map (tag_row c t) rows) \<subseteq> set (stocks (db (fetch_all env ss w))))"
proof (intro conjI allI impI)
  fix t c e
  assume "try_body env t c (db w) = Inl (Exception e)"
  then show "fetch_and_store_data env t c w =
        w\<lparr>printed := printed w @ [''An error occurred while fetching data for '' @ t @ '': '' @ e]\<rparr>"
    by (simp add: fetch_and_store_data_def)
next
  show "length (printed (fetch_all env ss w)) = length (printed w) + length ss"
    by (rule fetch_all_printed)
next
  show "stocks (db (fetch_all env ss w)) =
     stocks (db w) @
       concat (map (\<lambda>(t, c). case download env t of
          Inl e \<Rightarrow> []
        | Inr rows \<Rightarrow> (case write_error env t of Some e \<Rightarrow> [] | None \<Rightarrow> map (tag_row c t) rows)) ss)"
    by (rule fetch_all_stocks)
next
  fix t c rows
  assume a: "(t, c) \<in> set ss \<and> download env t = Inr rows \<and> write_error env t = None"
  then have "map (tag_row c t) rows \<in> set (map (\<lambda>(t, c). case download env t of
          Inl e \<Rightarrow> []
        | Inr rows \<Rightarrow> (case write_error env t of Some e \<Rightarrow> [] | None \<Rightarrow> map (tag_row c t) rows)) ss)"
    by force
  then show "set (map (tag_row c t) rows) \<subseteq> set (stocks (db (fetch_all env ss w)))"
    unfolding fetch_all_stocks by (auto simp del: set_map)
qed

theorem batch_survives_failures_witness:
  "stocks (db (fetch_all flaky batch3 empty_world)) =
     [tag_row ''ConocoPhillips'' ''COP'' (xom_row 1 10)] \<and>
   length (printed (fetch_all flaky batch3 empty_world)) = 3"
  using batch_survives_failures [of flaky empty_world batch3]
  by (simp add: flaky_def batch3_def empty_world_def)

section \<open>Stored order and date order\<close>

lemma add_features_nth:
  assumes "k < length df"
  shows "add_features lib df ! k =
           (fst (df ! k),
            with_features (snd (df ! k))
              (derived_columns lib (map (\<lambda>(i, r). Ticker r) df) (map (\<lambda>(i, r). Adj_Close r) df) ! k))"
  using assms by (simp add: add_features_def length_derived_columns case_prod_unfold)

lemma length_add_features [simp]: "length (add_features lib df) = length df"
  by (simp add: add_features_def length_derived_columns)

lemma raw_part_add_features: "raw_part (add_features lib df) = df"
  by (rule nth_equalityI) (simp_all add: raw_part_def add_features_nth case_prod_unfold)

lemma dates_raw_part: "map (\<lambda>(i, r). Date r) (raw_part df) = map (\<lambda>(i, r). Date r) df"
  by (simp add: raw_part_def case_prod_unfold comp_def stock_row.defs)

lemma dates_add_features:
  "map (\<lambda>(i, r). Date r) (add_features lib df) = map (\<lambda>(i, r). Date r) df"
  using dates_raw_part [of "add_features lib df"] by (simp add: raw_part_add_features)

lemma more_with_features:
  "stock_row.more (with_features r d) = stock_row.more (with_features r' d)"
  by (cases d) (simp add: with_features_def stock_row.defs)

text \<open>The derived fields depend on the labels, the tickers and the adjusted closes only.\<close>

lemma derived_fields_cong:
  assumes "map fst df = map fst df'"
    and "map (\<lambda>(i, r). Ticker r) df = map (\<lambda>(i, r). Ticker r) df'"
    and "map (\<lambda>(i, r). Adj_Close r) df = map (\<lambda>(i, r). Adj_Close r) df'"
  shows "map (\<lambda>(i, r). (i, stock_row.more r)) (add_features lib df) =
         map (\<lambda>(i, r). (i, stock_row.more r)) (add_features lib df')"
proof (rule nth_equalityI)
  have len: "length df = length df'"
    using arg_cong [OF assms(1), of length] by simp
  then show "length (map (\<lambda>(i, r). (i, stock_row.more r)) (add_features lib df)) =
      length (map (\<lambda>(i, r). (i, stock_row.more r)) (add_features lib df'))" by simp
  fix k
  assume "k < length (map (\<lambda>(i, r). (i, stock_row.more r)) (add_features lib df))"
  then have k: "k < length df" "k < length df'" using len by simp_all
  have "fst (df ! k) = fst (df' ! k)"
    using arg_cong [OF assms(1), of "\<lambda>xs. xs ! k"] k by simp
  then show "map (\<lambda>(i, r). (i, stock_row.more r)) (add_features lib df) ! k =
      map (\<lambda>(i, r). (i, stock_row.more r)) (add_features lib df') ! k"
    using k assms(2,3) more_with_features [of "snd (df ! k)" _ "snd (df' ! k)"]
    by (simp add: add_features_nth)
qed

lemma read_sql_map: "read_sql (map f rows) = map (\<lambda>(i, r). (i, f r)) (read_sql rows)"
  by (simp add: read_sql_def zip_map2 case_prod_unfold)

lemma clean_without_date:
  "clean lib (read_sql (map without_date rows)) =
     map (\<lambda>(i, r). (i, without_date r)) (clean lib (read_sql rows))"
proof -
  have "clean lib (map (\<lambda>(i, r). (i, without_date r)) df) =
     map (\<lambda>(i, r). (i, without_date r)) (clean lib df)" for df
    by (induction df)
      (auto simp: clean_def dropna_adj_close_def coerce_row_def without_date_def)
  then show ?thesis by (simp only: read_sql_map)
qed

lemma date_blind:
  assumes "map without_date rows1 = map without_date rows2"
  shows "map (\<lambda>(i, r). (i, stock_row.more r)) (feature_frame lib rows1) =
         map (\<lambda>(i, r). (i, stock_row.more r)) (feature_frame lib rows2)"
proof -
  let ?C1 = "clean lib (read_sql rows1)" and ?C2 = "clean lib (read_sql rows2)"
  have eq: "map (\<lambda>(i, r). (i, without_date r)) ?C1 = map (\<lambda>(i, r). (i, without_date r)) ?C2"
    using assms by (simp flip: clean_without_date)
  have "map fst ?C1 = map (fst \<circ> (\<lambda>(i, r). (i, without_date r))) ?C1"
    by (simp add: case_prod_unfold comp_def)
  also have "\<dots> = map (fst \<circ> (\<lambda>(i, r). (i, without_date r))) ?C2"
    using arg_cong [OF eq, of "map fst"] by simp
  also have "\<dots> = map fst ?C2" by (simp add: case_prod_unfold comp_def)
  finally have 1: "map fst ?C1 = map fst ?C2" .
  have "map (\<lambda>(i, r). Ticker r) ?C1 = map ((\<lambda>(i, r). Ticker r) \<circ> (\<lambda>(i, r). (i, without_date r))) ?C1"
    by (simp add: case_prod_unfold comp_def without_date_def)
  also have "\<dots> = map ((\<lambda>(i, r). Ticker r) \<circ> (\<lambda>(i, r). (i, without_date r))) ?C2"
    using arg_cong [OF eq, of "map (\<lambda>(i, r). Ticker r)"] by simp
  also have "\<dots> = map (\<lambda>(i, r). Ticker r) ?C2"
    by (simp add: case_prod_unfold comp_def without_date_def)
  finally have 2: "map (\<lambda>(i, r). Ticker r) ?C1 = map (\<lambda>(i, r). Ticker r) ?C2" .
  have "map (\<lambda>(i, r). Adj_Close r) ?C1 = map ((\<lambda>(i, r). Adj_Close r) \<circ> (\<lambda>(i, r). (i, without_date r))) ?C1"
    by (simp add: case_prod_unfold comp_def without_date_def)
  also have "\<dots> = map ((\<lambda>(i, r). Adj_Close r) \<circ> (\<lambda>(i, r). (i, without_date r))) ?C2"
    using arg_cong [OF eq, of "map (\<lambda>(i, r). Adj_Close r)"] by simp
  also have "\<dots> = map (\<lambda>(i, r). Adj_Close r) ?C2"
    by (simp add: case_prod_unfold comp_def without_date_def)
  finally have 3: "map (\<lambda>(i, r). Adj_Close r) ?C1 = map (\<lambda>(i, r). Adj_Close r) ?C2" .
  from 1 2 3 show ?thesis
    unfolding feature_frame_def by (rule derived_fields_cong)
qed

lemma ticker_rows_by_date: "ticker_rows T (by_date df) = by_date (ticker_rows T df)"
  by (simp add: ticker_rows_def by_date_def filter_sort)

lemma by_date_sorted: "sorted (map (\<lambda>(i, r). Date r) df) \<Longrightarrow> by_date df = df"
  by (simp add: by_date_def sort_key_id_if_sorted)

lemma dates_of_clean_group:
  "map (\<lambda>(i, r). Date r) (ticker_rows T (clean lib (read_sql rows))) =
     map Date (filter (\<lambda>r. to_numeric lib (Adj_Close r) \<noteq> NaN) (filter (\<lambda>r. Ticker r = Some T) rows))"
proof -
  have "map (\<lambda>(i, r). Date r) (ticker_rows T (clean lib (read_sql rows)))
      = map Date (map snd (ticker_rows T (clean lib (read_sql rows))))"
    by (simp add: case_prod_unfold comp_def)
  then show ?thesis
    by (simp add: rows_of_clean_group comp_def coerce_row_def)
qed

lemma sorted_agrees:
  assumes "sorted (map Date (filter (\<lambda>r. Ticker r = Some T) rows))"
  shows "ticker_rows T (feature_frame lib rows) = ticker_rows T (spec_feature_frame lib rows)"
proof -
  let ?C = "clean lib (read_sql rows)"
  have "sorted (map (\<lambda>(i, r). Date r) (ticker_rows T ?C))"
    unfolding dates_of_clean_group using assms by (rule sorted_filter)
  then have "ticker_rows T (by_date ?C) = ticker_rows T ?C"
    by (simp add: ticker_rows_by_date by_date_sorted)
  then show ?thesis
    by (simp add: feature_frame_def spec_feature_frame_def ticker_rows_add_features)
qed

lemma lag1_column:
  assumes "\<And>i r. (i, r) \<in> set df \<Longrightarrow> Ticker r = Some T"
  shows "map (\<lambda>(i, r). Lag_1 r) (add_features lib df) = shift 1 (map (\<lambda>(i, r). Adj_Close r) df)"
proof (rule nth_equalityI)
  show "length (map (\<lambda>(i, r). Lag_1 r) (add_features lib df)) =
      length (shift 1 (map (\<lambda>(i, r). Adj_Close r) df))" by simp
  fix k
  assume "k < length (map (\<lambda>(i, r). Lag_1 r) (add_features lib df))"
  then have k: "k < length df" by simp
  have "map (\<lambda>(i, r). Ticker r) df = map (\<lambda>x. Some T) df"
    using assms by (intro map_cong) auto
  then have keys: "map (\<lambda>(i, r). Ticker r) df = replicate (length df) (Some T)"
    by (simp add: map_replicate_const)
  have "derived_columns lib (map (\<lambda>(i, r). Ticker r) df) (map (\<lambda>(i, r). Adj_Close r) df)
      = series_features lib (map (\<lambda>(i, r). Adj_Close r) df)"
    unfolding keys by (rule derived_columns_single) simp
  then show "map (\<lambda>(i, r). Lag_1 r) (add_features lib df) ! k =
      shift 1 (map (\<lambda>(i, r). Adj_Close r) df) ! k"
    using k by (simp add: add_features_nth series_features_nth case_prod_unfold)
qed

lemma swapped2_clean:
  "clean no_parse (read_sql swapped2) =
     [(0, coerce_row no_parse (xom_row 2 20)), (1, coerce_row no_parse (xom_row 1 10))]"
  by (simp add: clean_def dropna_adj_close_def read_sql_def swapped2_def coerce_row_def xom_row_def
      to_numeric_def upt_rec)

lemma swapped2_by_date:
  "by_date (clean no_parse (read_sql swapped2)) =
     [(1, coerce_row no_parse (xom_row 1 10)), (0, coerce_row no_parse (xom_row 2 20))]"
  by (simp add: swapped2_clean by_date_def coerce_row_def xom_row_def)

lemma swapped2_engine:
  "map (\<lambda>(i, r). Date r) (feature_frame no_parse swapped2) = [Some 2, Some 1]"
  "map (\<lambda>(i, r). Lag_1 r) (feature_frame no_parse swapped2) = [NaN, Fin 20]"
proof -
  show "map (\<lambda>(i, r). Date r) (feature_frame no_parse swapped2) = [Some 2, Some 1]"
    by (simp add: feature_frame_def dates_add_features swapped2_clean coerce_row_def xom_row_def)
  have "map (\<lambda>(i, r). Lag_1 r) (feature_frame no_parse swapped2)
      = shift 1 (map (\<lambda>(i, r). Adj_Close r) (clean no_parse (read_sql swapped2)))"
    unfolding feature_frame_def
    by (rule lag1_column [where T = "''XOM''"])
      (auto simp: swapped2_clean coerce_row_def xom_row_def)
  then show "map (\<lambda>(i, r). Lag_1 r) (feature_frame no_parse swapped2) = [NaN, Fin 20]"
    by (simp add: swapped2_clean coerce_row_def xom_row_def to_numeric_def shift_def)
qed

lemma swapped2_spec:
  "map (\<lambda>(i, r). Date r) (spec_feature_frame no_parse swapped2) = [Some 1, Some 2]"
  "map (\<lambda>(i, r). Lag_1 r) (spec_feature_frame no_parse swapped2) = [NaN, Fin 10]"
proof -
  show "map (\<lambda>(i, r). Date r) (spec_feature_frame no_parse swapped2) = [Some 1, Some 2]"
    by (simp add: spec_feature_frame_def dates_add_features swapped2_by_date coerce_row_def xom_row_def)
  have "map (\<lambda>(i, r). Lag_1 r) (spec_feature_frame no_parse swapped2)
      = shift 1 (map (\<lambda>(i, r). Adj_Close r) (by_date (clean no_parse (read_sql swapped2))))"
    unfolding spec_feature_frame_def
    by (rule lag1_column [where T = "''XOM''"])
      (auto simp: swapped2_by_date coerce_row_def xom_row_def)
  then show "map (\<lambda>(i, r). Lag_1 r) (spec_feature_frame no_parse swapped2) = [NaN, Fin 10]"
    by (simp add: swapped2_by_date coerce_row_def xom_row_def to_numeric_def shift_def)
qed

text \<open>
  Claim C10.  The feature engine has no sorting step and never reads a date: two raw
  tables that differ in their dates only get the same derived fields, row for row, so
  every rolling mean, rolling deviation, return and lag runs over the stored order.
  When the rows of a ticker are stored in ascending date order, its rows carry the
  fields of the date-based definition (\<open>spec_feature_frame\<close>).  Without that
  precondition they need not: in \<open>swapped2\<close> the row of day 1, stored second, gets the
  price of day 2 as its lag, where the date-based definition gives the row of day 2
  the price of day 1.
\<close>

theorem derived_fields_follow_stored_order:
  "(map without_date rows1 = map without_date rows2 \<longrightarrow>
      map (\<lambda>(i, r). (i, stock_row.more r)) (feature_frame lib rows1) =
      map (\<lambda>(i, r). (i, stock_row.more r)) (feature_frame lib rows2)) \<and>
   (sorted (map Date (filter (\<lambda>r. Ticker r = Some T) rows)) \<longrightarrow>
      ticker_rows T (feature_frame lib rows) = ticker_rows T (spec_feature_frame lib rows)) \<and>
   map (\<lambda>(i, r). Date r) (feature_frame no_parse swapped2) = [Some 2, Some 1] \<and>
   map (\<lambda>(i, r). Lag_1 r) (feature_frame no_parse swapped2) = [NaN, Fin 20] \<and>
   map (\<lambda>(i, r). Date r) (spec_feature_frame no_parse swapped2) = [Some 1, Some 2] \<and>
   map (\<lambda>(i, r). Lag_1 r) (spec_feature_frame no_parse swapped2) = [NaN, Fin 10]"
  using date_blind [of rows1 rows2 lib] sorted_agrees [of T rows lib]
  by (simp add: swapped2_engine swapped2_spec)

lemma xom15_sorted: "sorted (map Date (filter (\<lambda>r. Ticker r = Some ''XOM'') xom15))"
  by (simp add: xom15_def xom_row_def)

lemma swapped2_undated:
  "map without_date swapped2 = map without_date [xom_row 1 20, xom_row 2 10]"
  by (simp add: swapped2_def without_date_def xom_row_def)

theorem derived_fields_follow_stored_order_witness:
  "map (\<lambda>(i, r). (i, stock_row.more r)) (feature_frame no_parse swapped2) =
     map (\<lambda>(i, r). (i, stock_row.more r)) (feature_frame no_parse [xom_row 1 20, xom_row 2 10]) \<and>
   ticker_rows ''XOM'' (feature_frame no_parse xom15) =
     ticker_rows ''XOM'' (spec_feature_frame no_parse xom15)"
  using derived_fields_follow_stored_order
    [of swapped2 "[xom_row 1 20, xom_row 2 10]" no_parse "''XOM''" xom15]
    xom15_sorted swapped2_undated
  by simp

section \<open>Scaling in the recurrent trainer\<close>

lemma split_two:
  "train_test_split (\<lambda>n. [a, b]) [x0, x1] = Inr ([[x0, x1] ! b], [[x0, x1] ! a])"
  by (simp add: train_test_split_def Let_def)

lemma two_samples_fit:
  "minmax_fit two_samples =
     Inr \<lparr>data_min = [20, 33 / 2, 1 / 200, 22, 21], data_max = [21, 35 / 2, 1 / 100, 23, 22]\<rparr>"
  by (simp add: minmax_fit_def two_samples_def)

lemma two_samples_scaled:
  "minmax_transform \<lparr>data_min = [20, 33 / 2, 1 / 200, 22, 21], data_max = [21, 35 / 2, 1 / 100, 23, 22]\<rparr>
     two_samples = [[0, 0, 1, 0, 0], [1, 1, 0, 1, 1]]"
  by (simp add: minmax_transform_def scale_of_def min_of_def two_samples_def)

text \<open>
  Claim C1 does not hold of the recurrent trainer: the scaler is fit on all samples
  before the split.  On \<open>two_samples\<close>, whichever of the two samples the shuffle puts
  in the test partition, the fitted minimum and maximum are those of both samples, and
  the scaled partitions differ from the ones that fitting on the training partition
  gives.
\<close>

theorem lstm_scaler_sees_test_rows:
  "lstm_scaling (\<lambda>n. [0, 1]) two_samples =
     Inr (\<lparr>data_min = [20, 33 / 2, 1 / 200, 22, 21], data_max = [21, 35 / 2, 1 / 100, 23, 22]\<rparr>,
          [[1, 1, 0, 1, 1]], [[0, 0, 1, 0, 0]]) \<and>
   split_then_scale minmax_fit minmax_transform (\<lambda>n. [0, 1]) two_samples =
     Inr (\<lparr>data_min = [21, 35 / 2, 1 / 200, 23, 22], data_max = [21, 35 / 2, 1 / 200, 23, 22]\<rparr>,
          [[0, 0, 0, 0, 0]], [[- 1, - 1, 1 / 200, - 1, - 1]]) \<and>
   lstm_scaling (\<lambda>n. [1, 0]) two_samples =
     Inr (\<lparr>data_min = [20, 33 / 2, 1 / 200, 22, 21], data_max = [21, 35 / 2, 1 / 100, 23, 22]\<rparr>,
          [[0, 0, 1, 0, 0]], [[1, 1, 0, 1, 1]]) \<and>
   split_then_scale minmax_fit minmax_transform (\<lambda>n. [1, 0]) two_samples =
     Inr (\<lparr>data_min = [20, 33 / 2, 1 / 100, 22, 21], data_max = [20, 33 / 2, 1 / 100, 22, 21]\<rparr>,
          [[0, 0, 0, 0, 0]], [[1, 1, - (1 / 200), 1, 1]])"
proof -
  have a: "lstm_scaling (\<lambda>n. [a, b]) two_samples =
      Inr (\<lparr>data_min = [20, 33 / 2, 1 / 200, 22, 21], data_max = [21, 35 / 2, 1 / 100, 23, 22]\<rparr>,
           [[[0, 0, 1, 0, 0], [1, 1, 0, 1, 1]] ! b], [[[0, 0, 1, 0, 0], [1, 1, 0, 1, 1]] ! a])" for a b
    by (simp add: lstm_scaling_def two_samples_fit two_samples_scaled split_two)
  have b: "split_then_scale minmax_fit minmax_transform (\<lambda>n. [0, 1]) two_samples =
     Inr (\<lparr>data_min = [21, 35 / 2, 1 / 200, 23, 22], data_max = [21, 35 / 2, 1 / 200, 23, 22]\<rparr>,
          [[0, 0, 0, 0, 0]], [[- 1, - 1, 1 / 200, - 1, - 1]])"
    by (simp add: split_then_scale_def two_samples_def split_two minmax_fit_def
        minmax_transform_def scale_of_def min_of_def)
  have c: "split_then_scale minmax_fit minmax_transform (\<lambda>n. [1, 0]) two_samples =
     Inr (\<lparr>data_min = [20, 33 / 2, 1 / 100, 22, 21], data_max = [20, 33 / 2, 1 / 100, 22, 21]\<rparr>,
          [[0, 0, 0, 0, 0]], [[1, 1, - (1 / 200), 1, 1]])"
    by (simp add: split_then_scale_def two_samples_def split_two minmax_fit_def
        minmax_transform_def scale_of_def min_of_def)
  show ?thesis
    using a [of 0 1] a [of 1 0] b c by simp
qed

end
